theory Spec2Isabelle
  imports Complex_Main "HOL-Library.Multiset"
begin

chapter \<open>Playlist reconciliation and migration for a remote music catalogue\<close>

text \<open>
  A shallow embedding of \<^verbatim>\<open>src/server/ytmusic_load.py\<close> and
  \<^verbatim>\<open>src/server/ytmusic_migrate.py\<close>.

  \<^item> Values that arrive as JSON (payloads, remote answers) are terms of the datatype
    \<open>json\<close>; a Python \<^verbatim>\<open>dict\<close> is an association list with \<^verbatim>\<open>d.get(k)\<close> as
    \<open>dict_get\<close>.
  \<^item> A Python \<^verbatim>\<open>str\<close> is a \<open>string\<close> whose characters stand for the code points
    below 256; \<^verbatim>\<open>str.isspace\<close> and \<^verbatim>\<open>str.lower\<close> are written out for that range.
  \<^item> The remote client is a record of functions over an abstract state; each call
    either raises (\<open>Inl\<close> of the exception text) or returns a value. Every call a
    handler issues is appended to a log, so that the number and the arguments of the
    remote calls can be stated.
  \<^item> \<^verbatim>\<open>emit_error\<close> ends the process with a structured payload; it is the value
    \<open>Inl (SystemExit payload)\<close>. An exception that no handler catches is
    \<open>Inl (Uncaught name)\<close>.
\<close>

section \<open>Strings\<close>

text \<open>\<^verbatim>\<open>str.isspace\<close> on the code points below 256.\<close>

definition is_space :: "char \<Rightarrow> bool" where
  "is_space c = (let n = (of_char c :: nat) in
     (9 \<le> n \<and> n \<le> 13) \<or> (28 \<le> n \<and> n \<le> 32) \<or> n = 133 \<or> n = 160)"

text \<open>\<^verbatim>\<open>str.strip()\<close>.\<close>

definition strip :: "string \<Rightarrow> string" where
  "strip s = rev (dropWhile is_space (rev (dropWhile is_space s)))"

text \<open>\<^verbatim>\<open>str.lower()\<close>: the letters A-Z and the upper-case letters of Latin-1.\<close>

definition lower_char :: "char \<Rightarrow> char" where
  "lower_char c = (let n = (of_char c :: nat) in
     if (65 \<le> n \<and> n \<le> 90) \<or> (192 \<le> n \<and> n \<le> 222 \<and> n \<noteq> 215)
     then char_of (n + 32) else c)"

definition lower :: "string \<Rightarrow> string" where
  "lower s = map lower_char s"

text \<open>The character class \<^verbatim>\<open>[a-z0-9]\<close>.\<close>

definition is_alnum :: "char \<Rightarrow> bool" where
  "is_alnum c = (let n = (of_char c :: nat) in
     (48 \<le> n \<and> n \<le> 57) \<or> (97 \<le> n \<and> n \<le> 122))"

text \<open>\<^verbatim>\<open>re.sub(r"[^a-z0-9]+", " ", s)\<close>: every maximal run of characters outside the
  class becomes one space.\<close>

function re_sub_non_alnum :: "string \<Rightarrow> string" where
  "re_sub_non_alnum [] = []"
| "re_sub_non_alnum (c # cs) =
     (if is_alnum c then c # re_sub_non_alnum cs
      else CHR '' '' # re_sub_non_alnum (dropWhile (\<lambda>d. \<not> is_alnum d) cs))"
  by pat_completeness auto
termination
  by (relation "measure length") (auto simp: le_imp_less_Suc length_dropWhile_le)

text \<open>\<^verbatim>\<open>s.split()\<close> with no argument: the maximal runs of non-whitespace.\<close>

function split_ws :: "string \<Rightarrow> string list" where
  "split_ws s =
     (case dropWhile is_space s of
        [] \<Rightarrow> []
      | c # cs \<Rightarrow> (c # takeWhile (\<lambda>d. \<not> is_space d) cs)
                  # split_ws (dropWhile (\<lambda>d. \<not> is_space d) cs))"
  by pat_completeness auto
termination
proof (relation "measure length")
  show "wf (measure length)" by simp
next
  fix s :: string and c cs
  assume a: "dropWhile is_space s = c # cs"
  have "length (dropWhile (\<lambda>d. \<not> is_space d) cs) \<le> length cs"
    by (rule length_dropWhile_le)
  moreover have "length (c # cs) \<le> length s"
    using length_dropWhile_le [of is_space s] a by simp
  ultimately show "(dropWhile (\<lambda>d. \<not> is_space d) cs, s) \<in> measure length"
    by simp
qed

declare split_ws.simps [simp del]

text \<open>\<^verbatim>\<open>s.split(" ")\<close>: split at every single space, keeping empty pieces.\<close>

fun split_on :: "char \<Rightarrow> string \<Rightarrow> string list" where
  "split_on sep [] = [[]]"
| "split_on sep (c # cs) =
     (if c = sep then [] # split_on sep cs
      else (case split_on sep cs of
              [] \<Rightarrow> [[c]]
            | w # ws \<Rightarrow> (c # w) # ws))"

text \<open>\<^verbatim>\<open>sep.join(ws)\<close>.\<close>

fun join :: "string \<Rightarrow> string list \<Rightarrow> string" where
  "join sep [] = []"
| "join sep [w] = w"
| "join sep (w # v # ws) = w @ sep @ join sep (v # ws)"

text \<open>\<^verbatim>\<open>a in b\<close> on strings: \<open>a\<close> occurs in \<open>b\<close> as a contiguous piece.\<close>

fun is_prefix :: "string \<Rightarrow> string \<Rightarrow> bool" where
  "is_prefix [] b = True"
| "is_prefix (x # a) [] = False"
| "is_prefix (x # a) (y # b) = (x = y \<and> is_prefix a b)"

fun str_in :: "string \<Rightarrow> string \<Rightarrow> bool" where
  "str_in a [] = (a = [])"
| "str_in a (y # b) = (is_prefix a (y # b) \<or> str_in a b)"

text \<open>\<^verbatim>\<open>normalize\<close> of \<^verbatim>\<open>ytmusic_migrate.py\<close>.\<close>

definition normalize :: "string \<Rightarrow> string" where
  "normalize v = join '' '' (split_ws (re_sub_non_alnum (lower v)))"

text \<open>The decimal text of a natural number, as an f-string prints an index.\<close>

fun string_of_nat :: "nat \<Rightarrow> string" where
  "string_of_nat n =
     (if n < 10 then [char_of (48 + n)]
      else string_of_nat (n div 10) @ [char_of (48 + n mod 10)])"

declare string_of_nat.simps [simp del]

text \<open>\<^verbatim>\<open>int(s)\<close> on a stripped string: an optional sign, then decimal digits, single
  underscores allowed between digits; \<open>None\<close> stands for \<^verbatim>\<open>ValueError\<close>. (The
  interpreter's limit on the number of digits is not modelled.)\<close>

definition is_digit :: "char \<Rightarrow> bool" where
  "is_digit c = (let n = (of_char c :: nat) in 48 \<le> n \<and> n \<le> 57)"

definition digit_val :: "char \<Rightarrow> nat" where
  "digit_val c = (of_char c :: nat) - 48"

fun parse_digits :: "nat \<Rightarrow> string \<Rightarrow> nat option" where
  "parse_digits acc [] = Some acc"
| "parse_digits acc (c # cs) =
     (if is_digit c then parse_digits (acc * 10 + digit_val c) cs
      else if c = CHR ''_'' then
        (case cs of
           [] \<Rightarrow> None
         | d # ds \<Rightarrow> if is_digit d then parse_digits (acc * 10 + digit_val d) ds else None)
      else None)"

definition parse_nat :: "string \<Rightarrow> nat option" where
  "parse_nat s = (case s of
      [] \<Rightarrow> None
    | c # cs \<Rightarrow> if is_digit c then parse_digits (digit_val c) cs else None)"

definition py_int :: "string \<Rightarrow> int option" where
  "py_int s = (case s of
      [] \<Rightarrow> None
    | c # cs \<Rightarrow>
        if c = CHR ''-'' then map_option (\<lambda>n. - int n) (parse_nat cs)
        else if c = CHR ''+'' then map_option int (parse_nat cs)
        else map_option int (parse_nat s))"

section \<open>JSON values and results\<close>

datatype json =
    JNull
  | JBool bool
  | JInt int
  | JFloat rat
  | JStr string
  | JList "json list"
  | JDict "(string \<times> json) list"

type_synonym dict = "(string \<times> json) list"

text \<open>\<^verbatim>\<open>d.get(k)\<close>: the value, or \<^verbatim>\<open>None\<close> when the key is absent.\<close>

definition dict_get :: "dict \<Rightarrow> string \<Rightarrow> json" where
  "dict_get d k = (case map_of d k of None \<Rightarrow> JNull | Some v \<Rightarrow> v)"

text \<open>How a call ends when it does not return: \<^verbatim>\<open>emit_error\<close> writes a payload and
  raises \<^verbatim>\<open>SystemExit\<close>; any other exception that nothing catches is \<open>Uncaught\<close>.\<close>

datatype failure = SystemExit dict | Uncaught string

definition emit_error :: "string \<Rightarrow> string \<Rightarrow> nat \<Rightarrow> string \<Rightarrow> failure" where
  "emit_error message code status details =
     SystemExit ([(''ok'', JBool False), (''error'', JStr message), (''code'', JStr code),
                  (''status'', JInt (int status))]
                 @ (if details \<noteq> [] then [(''details'', JStr details)] else []))"

text \<open>\<^verbatim>\<open>safe_str\<close>, \<^verbatim>\<open>is_truthy\<close> and \<^verbatim>\<open>safe_non_negative_int\<close> (the same text in both
  files).\<close>

definition safe_str :: "json \<Rightarrow> string" where
  "safe_str v = (case v of JStr s \<Rightarrow> strip s | _ \<Rightarrow> [])"

definition is_truthy :: "json \<Rightarrow> bool" where
  "is_truthy v = (case v of
      JBool b \<Rightarrow> b
    | JStr s \<Rightarrow> lower (strip s) \<in> {''1'', ''true'', ''yes'', ''on''}
    | JInt i \<Rightarrow> i \<noteq> 0
    | JFloat r \<Rightarrow> r \<noteq> 0
    | _ \<Rightarrow> False)"

definition safe_non_negative_int :: "json \<Rightarrow> nat option" where
  "safe_non_negative_int v = (case v of
      JBool b \<Rightarrow> None
    | JInt i \<Rightarrow> if i \<ge> 0 then Some (nat i) else None
    | JStr s \<Rightarrow>
        (let stripped = strip s in
         if stripped = [] then None
         else (case py_int stripped of
                 None \<Rightarrow> None
               | Some parsed \<Rightarrow> if parsed \<ge> 0 then Some (nat parsed) else None))
    | _ \<Rightarrow> None)"

section \<open>The remote client\<close>

text \<open>
  The four methods of the catalogue client that the modelled code calls. A method takes
  the client's state and gives back the new state with either the text of the exception
  it raised (\<open>Inl\<close>) or the value it returned (\<open>Inr\<close>).
\<close>

record 's ytmusic =
  get_playlist :: "string \<Rightarrow> nat \<Rightarrow> 's \<Rightarrow> (string + json) \<times> 's"
  add_playlist_items :: "string \<Rightarrow> string list \<Rightarrow> bool \<Rightarrow> 's \<Rightarrow> (string + json) \<times> 's"
  edit_playlist :: "string \<Rightarrow> string \<times> string \<Rightarrow> 's \<Rightarrow> (string + json) \<times> 's"
  search :: "string \<Rightarrow> string \<Rightarrow> nat \<Rightarrow> 's \<Rightarrow> (string + json) \<times> 's"

text \<open>The calls a handler has issued, oldest first; \<open>Sleep\<close> is \<^verbatim>\<open>time.sleep\<close>, with the
  pause in milliseconds.\<close>

datatype call =
    GetPlaylist string nat
  | AddPlaylistItems string "string list" bool
  | EditPlaylist string string string
  | Search string string nat
  | Sleep nat

type_synonym 's world = "'s \<times> call list"

definition call_get_playlist ::
  "'s ytmusic \<Rightarrow> string \<Rightarrow> nat \<Rightarrow> 's world \<Rightarrow> (string + json) \<times> 's world" where
  "call_get_playlist yt playlist_id limit w =
     (case get_playlist yt playlist_id limit (fst w) of
        (r, s') \<Rightarrow> (r, (s', snd w @ [GetPlaylist playlist_id limit])))"

definition call_add_playlist_items ::
  "'s ytmusic \<Rightarrow> string \<Rightarrow> string list \<Rightarrow> bool \<Rightarrow> 's world \<Rightarrow> (string + json) \<times> 's world" where
  "call_add_playlist_items yt playlist_id video_ids duplicates w =
     (case add_playlist_items yt playlist_id video_ids duplicates (fst w) of
        (r, s') \<Rightarrow> (r, (s', snd w @ [AddPlaylistItems playlist_id video_ids duplicates])))"

definition call_edit_playlist ::
  "'s ytmusic \<Rightarrow> string \<Rightarrow> string \<times> string \<Rightarrow> 's world \<Rightarrow> (string + json) \<times> 's world" where
  "call_edit_playlist yt playlist_id move_item w =
     (case edit_playlist yt playlist_id move_item (fst w) of
        (r, s') \<Rightarrow> (r, (s', snd w @ [EditPlaylist playlist_id (fst move_item) (snd move_item)])))"

definition call_search ::
  "'s ytmusic \<Rightarrow> string \<Rightarrow> string \<Rightarrow> nat \<Rightarrow> 's world \<Rightarrow> (string + json) \<times> 's world" where
  "call_search yt query flt limit w =
     (case search yt query flt limit (fst w) of
        (r, s') \<Rightarrow> (r, (s', snd w @ [Search query flt limit])))"

definition sleep :: "nat \<Rightarrow> 's world \<Rightarrow> 's world" where
  "sleep ms w = (fst w, snd w @ [Sleep ms])"

text \<open>The reorder calls in a log.\<close>

fun is_edit :: "call \<Rightarrow> bool" where
  "is_edit (EditPlaylist p a b) = True"
| "is_edit c = False"

definition edit_calls :: "call list \<Rightarrow> call list" where
  "edit_calls cs = filter is_edit cs"

text \<open>A client that follows a script, for running the handlers on concrete inputs:
  \<^verbatim>\<open>get_playlist\<close> answers with the next entry of \<open>snapshots\<close> (and raises when none is
  left), \<^verbatim>\<open>search\<close> looks the query and the filter up in a table (an empty list when
  absent), the two mutations always answer \<open>add_answer\<close> and \<open>edit_answer\<close>.\<close>

record script =
  snapshots :: "(string + json) list"
  search_table :: "((string \<times> string) \<times> (string + json)) list"
  add_answer :: "string + json"
  edit_answer :: "string + json"

definition scripted :: "script ytmusic" where
  "scripted =
     \<lparr> get_playlist = (\<lambda>playlist_id limit s.
          (case snapshots s of
             [] \<Rightarrow> (Inl ''no snapshot left'', s)
           | r # rs \<Rightarrow> (r, s\<lparr>snapshots := rs\<rparr>))),
       add_playlist_items = (\<lambda>playlist_id video_ids duplicates s. (add_answer s, s)),
       edit_playlist = (\<lambda>playlist_id move_item s. (edit_answer s, s)),
       search = (\<lambda>query flt limit s.
          (case map_of (search_table s) (query, flt) of
             None \<Rightarrow> (Inr (JList []), s)
           | Some r \<Rightarrow> (r, s))) \<rparr>"

text \<open>A client that answers every read with the same value and accepts every mutation.\<close>

definition steady :: "json \<Rightarrow> unit ytmusic" where
  "steady snapshot =
     \<lparr> get_playlist = (\<lambda>playlist_id limit s. (Inr snapshot, s)),
       add_playlist_items = (\<lambda>playlist_id video_ids duplicates s. (Inr JNull, s)),
       edit_playlist = (\<lambda>playlist_id move_item s. (Inr JNull, s)),
       search = (\<lambda>query flt limit s. (Inr (JList []), s)) \<rparr>"

text \<open>The same, with one answer to every search.\<close>

definition catalogue :: "json \<Rightarrow> json \<Rightarrow> unit ytmusic" where
  "catalogue results snapshot =
     (steady snapshot)\<lparr>search := (\<lambda>query flt limit s. (Inr results, s))\<rparr>"

text \<open>A client with one fixed answer for each method, to read, to add, to reorder and
  to search.\<close>

definition fixed_answers ::
  "string + json \<Rightarrow> string + json \<Rightarrow> string + json \<Rightarrow> string + json \<Rightarrow> unit ytmusic" where
  "fixed_answers read_answer add_answer' edit_answer' search_answer =
     \<lparr> get_playlist = (\<lambda>playlist_id limit s. (read_answer, s)),
       add_playlist_items = (\<lambda>playlist_id video_ids duplicates s. (add_answer', s)),
       edit_playlist = (\<lambda>playlist_id move_item s. (edit_answer', s)),
       search = (\<lambda>query flt limit s. (search_answer, s)) \<rparr>"

section \<open>\<^verbatim>\<open>ytmusic_load.py\<close>\<close>

subsection \<open>Reading a playlist\<close>

text \<open>\<^verbatim>\<open>snapshot.get("tracks") if isinstance(snapshot, dict) else []\<close>.\<close>

definition tracks_of :: "json \<Rightarrow> json" where
  "tracks_of snapshot = (case snapshot of JDict d \<Rightarrow> dict_get d ''tracks'' | _ \<Rightarrow> JList [])"

text \<open>The position token and the external identifier of a row; a row that is not a
  \<^verbatim>\<open>dict\<close> has neither.\<close>

definition row_token :: "json \<Rightarrow> string" where
  "row_token track = (case track of JDict d \<Rightarrow> safe_str (dict_get d ''setVideoId'') | _ \<Rightarrow> [])"

definition row_video_id :: "json \<Rightarrow> string" where
  "row_video_id track = (case track of JDict d \<Rightarrow> safe_str (dict_get d ''videoId'') | _ \<Rightarrow> [])"









subsection \<open>Locating a row\<close>

definition normalize_playlist_song_ref :: "json \<Rightarrow> dict option" where
  "normalize_playlist_song_ref v =
     (case v of
        JDict d \<Rightarrow>
          (let set_video_id = safe_str (dict_get d ''setVideoId'');
               video_id = safe_str (dict_get d ''videoId'')
           in if set_video_id = [] \<and> video_id = [] then None
              else Some ((if set_video_id \<noteq> [] then [(''setVideoId'', JStr set_video_id)] else [])
                         @ (if video_id \<noteq> [] then [(''videoId'', JStr video_id)] else [])))
      | _ \<Rightarrow> None)"

text \<open>The two loops of \<^verbatim>\<open>locate_playlist_song_index\<close> over \<^verbatim>\<open>enumerate(tracks)\<close>; the
  first argument after the target is the index of the head of the list.\<close>

fun find_by_token :: "string \<Rightarrow> nat \<Rightarrow> json list \<Rightarrow> (nat \<times> string) option" where
  "find_by_token target i [] = None"
| "find_by_token target i (track # rest) =
     (case track of
        JDict d \<Rightarrow>
          (let candidate_set_video_id = safe_str (dict_get d ''setVideoId'') in
           if candidate_set_video_id = target then Some (i, candidate_set_video_id)
           else find_by_token target (Suc i) rest)
      | _ \<Rightarrow> find_by_token target (Suc i) rest)"

fun find_by_video_id :: "string \<Rightarrow> nat \<Rightarrow> json list \<Rightarrow> (nat \<times> string) option" where
  "find_by_video_id target i [] = None"
| "find_by_video_id target i (track # rest) =
     (case track of
        JDict d \<Rightarrow>
          (let candidate_video_id = safe_str (dict_get d ''videoId'');
               candidate_set_video_id = safe_str (dict_get d ''setVideoId'')
           in if candidate_video_id = target \<and> candidate_set_video_id \<noteq> []
              then Some (i, candidate_set_video_id)
              else find_by_video_id target (Suc i) rest)
      | _ \<Rightarrow> find_by_video_id target (Suc i) rest)"

definition locate_playlist_song_index :: "json list \<Rightarrow> dict \<Rightarrow> int \<times> string" where
  "locate_playlist_song_index tracks song_ref =
     (let target_set_video_id = safe_str (dict_get song_ref ''setVideoId'');
          by_token = (if target_set_video_id \<noteq> [] then find_by_token target_set_video_id 0 tracks
                      else None)
      in case by_token of
           Some (i, t) \<Rightarrow> (int i, t)
         | None \<Rightarrow>
             (let target_video_id = safe_str (dict_get song_ref ''videoId'');
                  by_video = (if target_video_id \<noteq> [] then find_by_video_id target_video_id 0 tracks
                              else None)
              in case by_video of
                   Some (i, t) \<Rightarrow> (int i, t)
                 | None \<Rightarrow> (- 1, [])))"

subsection \<open>Finding the appended row\<close>

text \<open>The token set of the snapshot read before the append.\<close>

definition before_set_video_ids_of :: "json \<Rightarrow> string set" where
  "before_set_video_ids_of before_tracks =
     (case before_tracks of
        JList ts \<Rightarrow>
          fold (\<lambda>track acc. case track of
                  JDict d \<Rightarrow> (let set_video_id = safe_str (dict_get d ''setVideoId'')
                               in if set_video_id \<noteq> [] then insert set_video_id acc else acc)
                | _ \<Rightarrow> acc) ts {}
      | _ \<Rightarrow> {})"

record scan_state =
  inserted_set_video_id :: string
  inserted_index :: int
  fallback_set_video_id :: string
  fallback_index :: int

definition scan_init :: scan_state where
  "scan_init = \<lparr> inserted_set_video_id = [], inserted_index = - 1,
                 fallback_set_video_id = [], fallback_index = - 1 \<rparr>"

text \<open>The loop \<^verbatim>\<open>for track_index in range(len(after_tracks) - 1, -1, -1)\<close>: the rows come
  with their indices, last row first; \<^verbatim>\<open>break\<close> is the branch without a recursive call.
  The same loop stands in \<^verbatim>\<open>handle_insert_video_at_position\<close> and in \<^verbatim>\<open>migrate_songs\<close>.\<close>

fun scan_after :: "string \<Rightarrow> string set \<Rightarrow> (nat \<times> json) list \<Rightarrow> scan_state \<Rightarrow> scan_state" where
  "scan_after video_id before_set_video_ids [] st = st"
| "scan_after video_id before_set_video_ids ((track_index, track) # rest) st =
     (case track of
        JDict d \<Rightarrow>
          if safe_str (dict_get d ''videoId'') \<noteq> video_id then scan_after video_id before_set_video_ids rest st
          else
            (let track_set_video_id = safe_str (dict_get d ''setVideoId'') in
             if track_set_video_id \<noteq> [] \<and> track_set_video_id \<notin> before_set_video_ids then
               st\<lparr>inserted_set_video_id := track_set_video_id, inserted_index := int track_index\<rparr>
             else if track_set_video_id \<noteq> [] \<and> fallback_set_video_id st = [] then
               scan_after video_id before_set_video_ids rest
                 (st\<lparr>fallback_set_video_id := track_set_video_id,
                     fallback_index := int track_index\<rparr>)
             else scan_after video_id before_set_video_ids rest st)
      | _ \<Rightarrow> scan_after video_id before_set_video_ids rest st)"

definition scan_snapshot :: "string \<Rightarrow> string set \<Rightarrow> json list \<Rightarrow> scan_state" where
  "scan_snapshot video_id before_set_video_ids after_tracks =
     scan_after video_id before_set_video_ids (rev (enumerate 0 after_tracks)) scan_init"

text \<open>After the polling: when no new row was found, the fallback row is taken.\<close>

definition adopt_fallback :: "scan_state \<Rightarrow> scan_state" where
  "adopt_fallback st =
     (if inserted_set_video_id st = [] \<and> fallback_set_video_id st \<noteq> [] then
        st\<lparr>inserted_set_video_id := fallback_set_video_id st,
           inserted_index := fallback_index st\<rparr>
      else st)"

text \<open>\<^verbatim>\<open>candidate_tracks if isinstance(candidate_tracks, list) else []\<close>.\<close>

definition list_or_empty :: "json \<Rightarrow> json list" where
  "list_or_empty v = (case v of JList ts \<Rightarrow> ts | _ \<Rightarrow> [])"

text \<open>The polling loop \<^verbatim>\<open>for attempt in range(5)\<close> of
  \<^verbatim>\<open>handle_insert_video_at_position\<close>, over the attempts still to make. The variables
  \<^verbatim>\<open>after_tracks\<close> and the four scan variables live across iterations.\<close>

fun poll_after ::
  "'s ytmusic \<Rightarrow> string \<Rightarrow> string \<Rightarrow> string set \<Rightarrow> nat list \<Rightarrow> json list \<times> scan_state
   \<Rightarrow> 's world \<Rightarrow> (failure + json list \<times> scan_state) \<times> 's world" where
  "poll_after yt playlist_id video_id before_set_video_ids [] st w = (Inr st, w)"
| "poll_after yt playlist_id video_id before_set_video_ids (attempt # rest) st w =
     (case call_get_playlist yt playlist_id 5000 w of
        (Inl exc, w1) \<Rightarrow>
          if attempt < 4 then poll_after yt playlist_id video_id before_set_video_ids rest st (sleep 250 w1)
          else (Inl (emit_error ''Video was added but playlist reload failed.''
                       ''song_load_failed'' 502 exc), w1)
      | (Inr after_snapshot, w1) \<Rightarrow>
          (let after_tracks = list_or_empty (tracks_of after_snapshot) in
           if after_tracks = [] then
             poll_after yt playlist_id video_id before_set_video_ids rest (after_tracks, snd st)
               (if attempt < 4 then sleep 250 w1 else w1)
           else
             (let sc = scan_snapshot video_id before_set_video_ids after_tracks in
              if inserted_set_video_id sc \<noteq> [] \<or> fallback_set_video_id sc \<noteq> [] then
                (Inr (after_tracks, sc), w1)
              else poll_after yt playlist_id video_id before_set_video_ids rest (after_tracks, sc)
                     (if attempt < 4 then sleep 250 w1 else w1))))"

subsection \<open>Moving the appended row to the requested index\<close>

text \<open>The loop \<^verbatim>\<open>for candidate_index in range(successor_index, len(after_tracks))\<close>, over
  the rows from the successor slot on; the empty string when no row qualifies.\<close>

fun find_successor :: "string \<Rightarrow> json list \<Rightarrow> string" where
  "find_successor inserted [] = []"
| "find_successor inserted (successor_track # rest) =
     (case successor_track of
        JDict d \<Rightarrow>
          (let candidate_set_video_id = safe_str (dict_get d ''setVideoId'') in
           if candidate_set_video_id \<noteq> [] \<and> candidate_set_video_id \<noteq> inserted
           then candidate_set_video_id
           else find_successor inserted rest)
      | _ \<Rightarrow> find_successor inserted rest)"

definition insert_response :: "string \<Rightarrow> string \<Rightarrow> int \<Rightarrow> bool \<Rightarrow> dict" where
  "insert_response playlist_id video_id idx moved =
     [(''ok'', JBool True), (''playlistId'', JStr playlist_id), (''videoId'', JStr video_id),
      (''insertedIndex'', JInt idx), (''moved'', JBool moved)]"

text \<open>Lines 512 to 573 of \<^verbatim>\<open>handle_insert_video_at_position\<close>: the part that runs once
  the appended row is known by token and index.\<close>

definition position_inserted ::
  "'s ytmusic \<Rightarrow> string \<Rightarrow> string \<Rightarrow> nat \<Rightarrow> json list \<Rightarrow> string \<Rightarrow> int \<Rightarrow> 's world
   \<Rightarrow> (failure + dict) \<times> 's world" where
  "position_inserted yt playlist_id video_id expected_index after_tracks inserted_tok inserted_idx w =
     (let bounded_expected_index = min (int expected_index) (int (length after_tracks) - 1) in
      if inserted_idx = bounded_expected_index then
        (Inr (insert_response playlist_id video_id bounded_expected_index False), w)
      else
        (let successor_index =
               (if inserted_idx \<ge> 0 \<and> inserted_idx < bounded_expected_index
                then bounded_expected_index + 1 else bounded_expected_index)
         in if successor_index \<ge> int (length after_tracks) then
              (Inr (insert_response playlist_id video_id (int (length after_tracks) - 1) False), w)
            else
              (let successor_set_video_id =
                     find_successor inserted_tok (drop (nat successor_index) after_tracks)
               in if successor_set_video_id = [] then
                    (Inr (insert_response playlist_id video_id (int (length after_tracks) - 1) False), w)
                  else
                    (case call_edit_playlist yt playlist_id (inserted_tok, successor_set_video_id) w of
                       (Inl exc, w1) \<Rightarrow>
                         (Inl (emit_error
                                ''Video was added but could not be moved to requested position.''
                                ''playlist_song_move_failed'' 502 exc), w1)
                     | (Inr r, w1) \<Rightarrow>
                         (Inr (insert_response playlist_id video_id bounded_expected_index True),
                          w1)))))"

definition handle_insert_video_at_position ::
  "'s ytmusic \<Rightarrow> dict \<Rightarrow> 's world \<Rightarrow> (failure + dict) \<times> 's world" where
  "handle_insert_video_at_position yt payload w =
     (let playlist_id = safe_str (dict_get payload ''playlistId'') in
      if playlist_id = [] then
        (Inl (emit_error ''playlistId is required.'' ''invalid_input'' 400 []), w)
      else
        (let video_id = safe_str (dict_get payload ''videoId'') in
         if video_id = [] then
           (Inl (emit_error ''videoId is required.'' ''invalid_input'' 400 []), w)
         else
           (case safe_non_negative_int (dict_get payload ''expectedIndex'') of
              None \<Rightarrow>
                (Inl (emit_error ''expectedIndex must be a non-negative integer.''
                        ''invalid_input'' 400 []), w)
            | Some expected_index \<Rightarrow>
                (case call_get_playlist yt playlist_id 5000 w of
                   (Inl exc, w1) \<Rightarrow>
                     (Inl (emit_error ''Failed to load playlist songs before insert.''
                             ''song_load_failed'' 502 exc), w1)
                 | (Inr before_snapshot, w1) \<Rightarrow>
                     (let before_set_video_ids = before_set_video_ids_of (tracks_of before_snapshot) in
                      case call_add_playlist_items yt playlist_id [video_id] False w1 of
                        (Inl exc, w2) \<Rightarrow>
                          (Inl (emit_error ''Failed to add video to YouTube Music playlist.''
                                  ''playlist_song_add_failed'' 502 exc), w2)
                      | (Inr r, w2) \<Rightarrow>
                          (case poll_after yt playlist_id video_id before_set_video_ids [0, 1, 2, 3, 4]
                                  ([], scan_init) w2 of
                             (Inl f, w3) \<Rightarrow> (Inl f, w3)
                           | (Inr (after_tracks, sc), w3) \<Rightarrow>
                               if after_tracks = [] then
                                 (Inr (insert_response playlist_id video_id
                                         (int expected_index) False), w3)
                               else
                                 (let st = adopt_fallback sc in
                                  if inserted_set_video_id st = [] then
                                    (Inr (insert_response playlist_id video_id
                                            (int expected_index) False), w3)
                                  else position_inserted yt playlist_id video_id expected_index
                                         after_tracks (inserted_set_video_id st)
                                         (inserted_index st) w3)))))))"

subsection \<open>Moving a row by a number of positions\<close>

text \<open>Python's list indexing, reading and storing: a negative index counts from the end,
  and \<open>None\<close> stands for \<^verbatim>\<open>IndexError\<close>.\<close>

definition py_index :: "'a list \<Rightarrow> int \<Rightarrow> 'a option" where
  "py_index xs i =
     (let n = int (length xs); j = (if i < 0 then n + i else i)
      in if 0 \<le> j \<and> j < n then Some (xs ! nat j) else None)"

definition py_store :: "'a list \<Rightarrow> int \<Rightarrow> 'a \<Rightarrow> 'a list option" where
  "py_store xs i v =
     (let n = int (length xs); j = (if i < 0 then n + i else i)
      in if 0 \<le> j \<and> j < n then Some (xs[nat j := v]) else None)"

text \<open>\<^verbatim>\<open>xs[i], xs[j] = xs[j], xs[i]\<close>: both reads, then the two stores.\<close>

definition py_swap :: "'a list \<Rightarrow> int \<Rightarrow> int \<Rightarrow> 'a list option" where
  "py_swap xs i j =
     (case py_index xs j of
        None \<Rightarrow> None
      | Some a \<Rightarrow>
          (case py_index xs i of
             None \<Rightarrow> None
           | Some b \<Rightarrow>
               (case py_store xs i a of
                  None \<Rightarrow> None
                | Some ys \<Rightarrow> py_store ys j b)))"

definition move_response :: "string \<Rightarrow> bool \<Rightarrow> int \<Rightarrow> int \<Rightarrow> dict" where
  "move_response playlist_id moved from_index to_index =
     [(''ok'', JBool True), (''playlistId'', JStr playlist_id), (''moved'', JBool moved),
      (''fromIndex'', JInt from_index), (''toIndex'', JInt to_index)]"

definition move_failed :: "string \<Rightarrow> failure" where
  "move_failed exc =
     emit_error ''Failed to move song in YouTube Music playlist.''
       ''playlist_song_move_failed'' 502 exc"

text \<open>The loop \<^verbatim>\<open>for _ in range(steps)\<close>, over the number of iterations left, on the
  in-memory copy of the rows and the index of the moving row.\<close>

fun move_steps ::
  "'s ytmusic \<Rightarrow> string \<Rightarrow> string \<Rightarrow> string \<Rightarrow> nat \<Rightarrow> json list \<Rightarrow> int \<Rightarrow> 's world
   \<Rightarrow> (failure + json list \<times> int) \<times> 's world" where
  "move_steps yt playlist_id direction moved_tok 0 tracks final_index w =
     (Inr (tracks, final_index), w)"
| "move_steps yt playlist_id direction moved_tok (Suc n) tracks final_index w =
     (if direction = ''up'' then
        (case py_index tracks (final_index - 1) of
           None \<Rightarrow> (Inl (Uncaught ''IndexError''), w)
         | Some predecessor_track \<Rightarrow>
             (let predecessor_set_video_id = row_token predecessor_track in
              if predecessor_set_video_id = [] then (Inr (tracks, final_index), w)
              else
                (case call_edit_playlist yt playlist_id (moved_tok, predecessor_set_video_id) w of
                   (Inl exc, w1) \<Rightarrow> (Inl (move_failed exc), w1)
                 | (Inr r, w1) \<Rightarrow>
                     (case py_swap tracks (final_index - 1) final_index of
                        None \<Rightarrow> (Inl (Uncaught ''IndexError''), w1)
                      | Some tracks' \<Rightarrow>
                          move_steps yt playlist_id direction moved_tok n tracks'
                            (final_index - 1) w1))))
      else
        (case py_index tracks (final_index + 1) of
           None \<Rightarrow> (Inl (Uncaught ''IndexError''), w)
         | Some successor_track \<Rightarrow>
             (let successor_set_video_id = row_token successor_track in
              if successor_set_video_id = [] then (Inr (tracks, final_index), w)
              else
                (case call_edit_playlist yt playlist_id (successor_set_video_id, moved_tok) w of
                   (Inl exc, w1) \<Rightarrow> (Inl (move_failed exc), w1)
                 | (Inr r, w1) \<Rightarrow>
                     (case py_swap tracks final_index (final_index + 1) of
                        None \<Rightarrow> (Inl (Uncaught ''IndexError''), w1)
                      | Some tracks' \<Rightarrow>
                          move_steps yt playlist_id direction moved_tok n tracks'
                            (final_index + 1) w1)))))"

definition handle_move_playlist_song ::
  "'s ytmusic \<Rightarrow> dict \<Rightarrow> 's world \<Rightarrow> (failure + dict) \<times> 's world" where
  "handle_move_playlist_song yt payload w =
     (let playlist_id = safe_str (dict_get payload ''playlistId'') in
      if playlist_id = [] then
        (Inl (emit_error ''playlistId is required.'' ''invalid_input'' 400 []), w)
      else
        (case normalize_playlist_song_ref (dict_get payload ''song'') of
           None \<Rightarrow>
             (Inl (emit_error ''song must include setVideoId or videoId.''
                     ''invalid_input'' 400 []), w)
         | Some raw_song \<Rightarrow>
             if raw_song = [] then
               (Inl (emit_error ''song must include setVideoId or videoId.''
                       ''invalid_input'' 400 []), w)
             else
             (let direction = lower (safe_str (dict_get payload ''direction'')) in
              if direction \<notin> {''up'', ''down''} then
                (Inl (emit_error ''direction must be either 'up' or 'down'.''
                        ''invalid_input'' 400 []), w)
              else
                (case safe_non_negative_int (dict_get payload ''positions'') of
                   None \<Rightarrow>
                     (Inl (emit_error ''positions must be a positive integer.''
                             ''invalid_input'' 400 []), w)
                 | Some positions \<Rightarrow>
                     if positions \<le> 0 then
                       (Inl (emit_error ''positions must be a positive integer.''
                               ''invalid_input'' 400 []), w)
                     else
                       (case call_get_playlist yt playlist_id 5000 w of
                          (Inl exc, w1) \<Rightarrow>
                            (Inl (emit_error ''Failed to load playlist songs before move.''
                                    ''song_load_failed'' 502 exc), w1)
                        | (Inr snapshot, w1) \<Rightarrow>
                            (case tracks_of snapshot of
                               JList tracks \<Rightarrow>
                                 if length tracks < 2 then
                                   (Inr (move_response playlist_id False 0 0), w1)
                                 else
                                   (case locate_playlist_song_index tracks raw_song of
                                      (current_index, moved_set_video_id) \<Rightarrow>
                                        if current_index < 0 \<or> moved_set_video_id = [] then
                                          (Inl (emit_error
                                                  ''Could not find selected song in playlist.''
                                                  ''playlist_song_not_found'' 404 []), w1)
                                        else
                                          (let steps =
                                                 (if direction = ''up''
                                                  then min (int positions) current_index
                                                  else min (int positions)
                                                         (int (length tracks) - 1 - current_index))
                                           in if steps \<le> 0 then
                                                (Inr (move_response playlist_id False
                                                        current_index current_index), w1)
                                              else
                                                (case move_steps yt playlist_id direction
                                                        moved_set_video_id (nat steps) tracks
                                                        current_index w1 of
                                                   (Inl f, w2) \<Rightarrow> (Inl f, w2)
                                                 | (Inr (tracks', final_index), w2) \<Rightarrow>
                                                     (Inr (move_response playlist_id
                                                             (final_index \<noteq> current_index)
                                                             current_index final_index), w2))))
                             | _ \<Rightarrow> (Inr (move_response playlist_id False 0 0), w1)))))))"

section \<open>\<^verbatim>\<open>ytmusic_migrate.py\<close>\<close>

subsection \<open>Scoring search results\<close>

definition extract_artist_text :: "dict \<Rightarrow> string" where
  "extract_artist_text search_result =
     (let names =
            (case dict_get search_result ''artists'' of
               JList artists \<Rightarrow>
                 concat (map (\<lambda>artist. case artist of
                                 JDict a \<Rightarrow> (let name = safe_str (dict_get a ''name'')
                                              in if name \<noteq> [] then [name] else [])
                               | JStr s \<Rightarrow> (let name = safe_str artist
                                             in if name \<noteq> [] then [name] else [])
                               | _ \<Rightarrow> []) artists)
             | _ \<Rightarrow> [])
      in if names \<noteq> [] then join '', '' names
         else safe_str (dict_get search_result ''artist''))"

text \<open>\<^verbatim>\<open>any(token and token in result_artists for token in artist.split(" "))\<close>.\<close>

definition any_token_in :: "string \<Rightarrow> string \<Rightarrow> bool" where
  "any_token_in artist result_artists =
     list_ex (\<lambda>token. token \<noteq> [] \<and> str_in token result_artists) (split_on CHR '' '' artist)"

definition score_search_result :: "dict \<Rightarrow> string \<Rightarrow> string \<Rightarrow> int" where
  "score_search_result search_result target_title target_artist =
     (let result_title = normalize (safe_str (dict_get search_result ''title''));
          result_artists = normalize (extract_artist_text search_result);
          title = normalize target_title;
          artist = normalize target_artist
      in (if title \<noteq> [] \<and> result_title = title then 8
          else if title \<noteq> [] \<and> str_in title result_title then 5
          else 0)
         + (if artist \<noteq> [] \<and> result_artists = artist then 5
            else if artist \<noteq> [] \<and> str_in artist result_artists then 3
            else if artist \<noteq> [] \<and> any_token_in artist result_artists then 1
            else 0)
         + (if safe_str (dict_get search_result ''videoId'') \<noteq> [] then 2 else 0))"

definition artist_match_level :: "dict \<Rightarrow> string \<Rightarrow> int" where
  "artist_match_level search_result target_artist =
     (let artist = normalize target_artist in
      if artist = [] then 0
      else
        (let result_artists = normalize (extract_artist_text search_result) in
         if result_artists = [] then 0
         else if result_artists = artist then 3
         else if str_in artist result_artists then 2
         else if any_token_in artist result_artists then 1
         else 0))"

definition album_match_level :: "dict \<Rightarrow> string \<Rightarrow> int" where
  "album_match_level search_result target_album =
     (let album = normalize target_album in
      if album = [] then 0
      else
        (let result_album =
               (case dict_get search_result ''album'' of
                  JDict a \<Rightarrow> normalize (safe_str (dict_get a ''name''))
                | JStr s \<Rightarrow> normalize s
                | _ \<Rightarrow> [])
         in if result_album = [] then 0
            else if result_album = album then 2
            else if str_in album result_album then 1
            else 0))"

text \<open>\<^verbatim>\<open>max(xs, key=f)\<close>: the first element whose key is the greatest; \<open>None\<close> stands
  for the \<^verbatim>\<open>ValueError\<close> on an empty list.\<close>

definition py_max_by :: "('a \<Rightarrow> int) \<Rightarrow> 'a list \<Rightarrow> 'a option" where
  "py_max_by key xs =
     (case xs of
        [] \<Rightarrow> None
      | x # rest \<Rightarrow> Some (fold (\<lambda>y best. if key best < key y then y else best) rest x))"

definition valid_results_of :: "json list \<Rightarrow> dict list" where
  "valid_results_of results =
     concat (map (\<lambda>result. case result of
                    JDict d \<Rightarrow> if safe_str (dict_get d ''videoId'') \<noteq> [] then [d] else []
                  | _ \<Rightarrow> []) results)"

definition total_score :: "string \<Rightarrow> string \<Rightarrow> string \<Rightarrow> dict \<Rightarrow> int" where
  "total_score title artist album item =
     score_search_result item title artist + album_match_level item album * 4"

definition pick_best_match ::
  "json list \<Rightarrow> string \<Rightarrow> string \<Rightarrow> string \<Rightarrow> bool \<Rightarrow> dict option" where
  "pick_best_match results title artist album require_artist_match =
     (let valid_results = valid_results_of results in
      if valid_results = [] then None
      else if artist \<noteq> [] then
        (let artist_filtered = filter (\<lambda>result. artist_match_level result artist > 0) valid_results
         in if artist_filtered \<noteq> [] then py_max_by (total_score title artist album) artist_filtered
            else if require_artist_match then None
            else py_max_by (total_score title artist album) valid_results)
      else py_max_by (total_score title artist album) valid_results)"

subsection \<open>Resolving one song\<close>

text \<open>The entry that \<^verbatim>\<open>migrate_songs\<close> queues for a resolved song, with its keys as
  fields, and its JSON form.\<close>

record pending_song =
  p_song_key :: string
  p_title :: string
  p_artist :: string
  p_album :: string
  p_expected_index :: "nat option"
  p_video_id :: string
  p_matched_title :: string
  p_matched_artists :: string

definition expected_index_json :: "nat option \<Rightarrow> json" where
  "expected_index_json e = (case e of None \<Rightarrow> JNull | Some n \<Rightarrow> JInt (int n))"

definition pending_json :: "pending_song \<Rightarrow> json" where
  "pending_json s =
     JDict [(''songKey'', JStr (p_song_key s)), (''title'', JStr (p_title s)),
            (''artist'', JStr (p_artist s)), (''album'', JStr (p_album s)),
            (''expectedIndex'', expected_index_json (p_expected_index s)),
            (''videoId'', JStr (p_video_id s)),
            (''matchedTitle'', JStr (p_matched_title s)),
            (''matchedArtists'', JStr (p_matched_artists s))]"

definition failed_entry :: "string \<Rightarrow> string \<Rightarrow> string \<Rightarrow> string \<Rightarrow> string \<Rightarrow> dict" where
  "failed_entry song_key title artist album error =
     [(''songKey'', JStr song_key), (''title'', JStr title), (''artist'', JStr artist),
      (''album'', JStr album), (''error'', JStr error)]"

definition debug_entry ::
  "string \<Rightarrow> string \<Rightarrow> string \<Rightarrow> string \<Rightarrow> string \<Rightarrow> string list \<Rightarrow> string \<Rightarrow> json \<Rightarrow> dict" where
  "debug_entry song_key title artist album query queries key v =
     [(''songKey'', JStr song_key), (''title'', JStr title), (''artist'', JStr artist),
      (''album'', JStr album), (''query'', JStr query), (''queries'', JList (map JStr queries)),
      (key, v)]"

text \<open>The inner loop over one answer of \<^verbatim>\<open>ytmusic.search\<close>: a result is kept when it is
  a \<^verbatim>\<open>dict\<close> with an external identifier that has not been seen.\<close>

fun merge_results :: "json list \<Rightarrow> json list \<times> string set \<Rightarrow> json list \<times> string set" where
  "merge_results [] acc = acc"
| "merge_results (result # rest) acc =
     (case result of
        JDict d \<Rightarrow>
          (let video_id = safe_str (dict_get d ''videoId'') in
           if video_id = [] \<or> video_id \<in> snd acc then merge_results rest acc
           else merge_results rest (fst acc @ [result], insert video_id (snd acc)))
      | _ \<Rightarrow> merge_results rest acc)"

text \<open>The loop \<^verbatim>\<open>for query_variant in queries\<close> inside its \<^verbatim>\<open>try\<close>: it ends at the
  first search that raises, with the exception text and the results merged so far.\<close>

fun search_variants ::
  "'s ytmusic \<Rightarrow> string \<Rightarrow> string list \<Rightarrow> json list \<times> string set \<Rightarrow> 's world
   \<Rightarrow> (string option \<times> json list \<times> string set) \<times> 's world" where
  "search_variants yt flt [] acc w = ((None, acc), w)"
| "search_variants yt flt (query_variant # rest) acc w =
     (case call_search yt query_variant flt 20 w of
        (Inl exc, w1) \<Rightarrow> ((Some exc, acc), w1)
      | (Inr variant_results, w1) \<Rightarrow>
          (case variant_results of
             JList rs \<Rightarrow> search_variants yt flt rest (merge_results rs acc) w1
           | _ \<Rightarrow> search_variants yt flt rest acc w1))"

text \<open>\<^verbatim>\<open>not best_match\<close>: \<^verbatim>\<open>None\<close> and the empty \<^verbatim>\<open>dict\<close> are false.\<close>

definition no_match :: "dict option \<Rightarrow> bool" where
  "no_match best_match = (case best_match of None \<Rightarrow> True | Some d \<Rightarrow> d = [])"

datatype resolution = Failed dict | Pending pending_song

text \<open>\<^verbatim>\<open>safe_str(song.get("songKey")) or f"song-{index}"\<close>.\<close>

definition song_key_for :: "dict \<Rightarrow> nat \<Rightarrow> string" where
  "song_key_for s index =
     (if safe_str (dict_get s ''songKey'') \<noteq> [] then safe_str (dict_get s ''songKey'')
      else ''song-'' @ string_of_nat index)"

text \<open>Lines 354 to 406: when the first search gave no match, the search with the filter
  \<^verbatim>\<open>videos\<close>, whose exception is swallowed, and the selection that does not require an
  artist match. The result is the match and the entries for the debug trace.\<close>

definition fallback_search ::
  "'s ytmusic \<Rightarrow> bool \<Rightarrow> (string \<Rightarrow> json \<Rightarrow> dict) \<Rightarrow> string list \<Rightarrow> string \<Rightarrow> string \<Rightarrow> string
   \<Rightarrow> dict option \<Rightarrow> 's world \<Rightarrow> (dict option \<times> dict list) \<times> 's world" where
  "fallback_search yt debug_enabled entry queries title artist album first_match w =
     (if no_match first_match then
        (case search_variants yt ''videos'' queries ([], {}) w of
           ((raised, video_results, seen), w1) \<Rightarrow>
             ((pick_best_match video_results title artist album False,
               (case raised of
                  Some exc \<Rightarrow> if debug_enabled then [entry ''videoFallbackError'' (JStr exc)] else []
                | None \<Rightarrow> [])
               @ (if debug_enabled then [entry ''videoFallbackResponse'' (JList video_results)]
                  else [])), w1))
      else ((first_match, []), w))"

text \<open>Lines 408 to 444: the failure or the queued entry that a match gives.\<close>

definition conclude_match ::
  "dict \<Rightarrow> string \<Rightarrow> string \<Rightarrow> string \<Rightarrow> string \<Rightarrow> dict option \<Rightarrow> resolution" where
  "conclude_match s song_key title artist album best_match =
     (if no_match best_match then
        Failed (failed_entry song_key title artist album ''No matching song found on YouTube Music.'')
      else
        (case best_match of
           None \<Rightarrow>
             Failed (failed_entry song_key title artist album
                       ''No matching song found on YouTube Music.'')
         | Some best \<Rightarrow>
             (let video_id = safe_str (dict_get best ''videoId'') in
              if video_id = [] then
                Failed (failed_entry song_key title artist album
                          ''Search result did not include a videoId.'')
              else
                Pending \<lparr> p_song_key = song_key, p_title = title, p_artist = artist,
                          p_album = album,
                          p_expected_index = safe_non_negative_int (dict_get s ''expectedIndex''),
                          p_video_id = video_id,
                          p_matched_title = safe_str (dict_get best ''title''),
                          p_matched_artists = extract_artist_text best \<rparr>)))"

text \<open>The body of the loop \<^verbatim>\<open>for index, song in enumerate(normalized_songs)\<close>: what the
  song becomes, and the entries added to the debug trace.\<close>

definition resolve_song ::
  "'s ytmusic \<Rightarrow> bool \<Rightarrow> nat \<Rightarrow> json \<Rightarrow> 's world \<Rightarrow> (resolution \<times> dict list) \<times> 's world" where
  "resolve_song yt debug_enabled index song w =
     (case song of
        JDict s \<Rightarrow>
          (let song_key = song_key_for s index;
               title = safe_str (dict_get s ''title'');
               artist = safe_str (dict_get s ''artist'');
               album = safe_str (dict_get s ''album'')
           in if title = [] then
                ((Failed (failed_entry song_key title artist album ''Song title is required.''), []), w)
              else
                (let query = strip (artist @ '' '' @ title);
                     queries = query # (if album \<noteq> []
                                        then [strip (artist @ '' '' @ title @ '' '' @ album)]
                                        else []);
                     entry = debug_entry song_key title artist album query queries
                 in case search_variants yt ''songs'' queries ([], {}) w of
                      ((Some exc, acc), w1) \<Rightarrow>
                        ((Failed (failed_entry song_key title artist album
                                    (''Search failed: '' @ exc)),
                          (if debug_enabled then [entry ''error'' (JStr exc)] else [])), w1)
                    | ((None, merged_results, seen), w1) \<Rightarrow>
                        (case fallback_search yt debug_enabled entry queries title artist album
                                (pick_best_match merged_results title artist album True) w1 of
                           ((best_match, dbg), w2) \<Rightarrow>
                             ((conclude_match s song_key title artist album best_match,
                               (if debug_enabled then [entry ''response'' (JList merged_results)]
                                else []) @ dbg), w2))))
      | _ \<Rightarrow>
          ((Failed [(''songKey'', JStr (''song-'' @ string_of_nat index)),
                    (''error'', JStr ''Song payload must be an object.'')], []), w))"

text \<open>The three lists the first loop fills.\<close>

record batch =
  pending_migrations :: "pending_song list"
  failed :: "dict list"
  debug_searches :: "dict list"

definition empty_batch :: batch where
  "empty_batch = \<lparr> pending_migrations = [], failed = [], debug_searches = [] \<rparr>"

fun resolve_all ::
  "'s ytmusic \<Rightarrow> bool \<Rightarrow> (nat \<times> json) list \<Rightarrow> batch \<Rightarrow> 's world \<Rightarrow> batch \<times> 's world" where
  "resolve_all yt debug_enabled [] b w = (b, w)"
| "resolve_all yt debug_enabled ((index, song) # rest) b w =
     (case resolve_song yt debug_enabled index song w of
        ((Failed entry, dbg), w1) \<Rightarrow>
          resolve_all yt debug_enabled rest
            (b\<lparr>failed := failed b @ [entry], debug_searches := debug_searches b @ dbg\<rparr>) w1
      | ((Pending song', dbg), w1) \<Rightarrow>
          resolve_all yt debug_enabled rest
            (b\<lparr>pending_migrations := pending_migrations b @ [song'],
               debug_searches := debug_searches b @ dbg\<rparr>) w1)"

subsection \<open>Adding the resolved songs\<close>

text \<open>The polling loop of the position-preserving mode. It differs from the one of
  \<^verbatim>\<open>handle_insert_video_at_position\<close> in that a read that raises is not caught inside the
  loop: the exception ends the whole best-effort block (\<open>None\<close>).\<close>

fun poll_after_migrate ::
  "'s ytmusic \<Rightarrow> string \<Rightarrow> string \<Rightarrow> string set \<Rightarrow> nat list \<Rightarrow> json list \<times> scan_state
   \<Rightarrow> 's world \<Rightarrow> (json list \<times> scan_state) option \<times> 's world" where
  "poll_after_migrate yt playlist_id video_id before_set_video_ids [] st w = (Some st, w)"
| "poll_after_migrate yt playlist_id video_id before_set_video_ids (attempt # rest) st w =
     (case call_get_playlist yt playlist_id 5000 w of
        (Inl exc, w1) \<Rightarrow> (None, w1)
      | (Inr after_snapshot, w1) \<Rightarrow>
          (let after_tracks = list_or_empty (tracks_of after_snapshot) in
           if after_tracks = [] then
             poll_after_migrate yt playlist_id video_id before_set_video_ids rest
               (after_tracks, snd st) (if attempt < 4 then sleep 250 w1 else w1)
           else
             (let sc = scan_snapshot video_id before_set_video_ids after_tracks in
              if inserted_set_video_id sc \<noteq> [] \<or> fallback_set_video_id sc \<noteq> [] then
                (Some (after_tracks, sc), w1)
              else poll_after_migrate yt playlist_id video_id before_set_video_ids rest
                     (after_tracks, sc) (if attempt < 4 then sleep 250 w1 else w1))))"

text \<open>The best-effort block (lines 495 to 610): every way it ends, also by an exception,
  leaves only the state of the remote side behind.\<close>

definition reposition_best_effort ::
  "'s ytmusic \<Rightarrow> string \<Rightarrow> string \<Rightarrow> nat \<Rightarrow> string set \<Rightarrow> 's world \<Rightarrow> 's world" where
  "reposition_best_effort yt playlist_id video_id expected_index before_set_video_ids w =
     (case poll_after_migrate yt playlist_id video_id before_set_video_ids [0, 1, 2, 3, 4]
             ([], scan_init) w of
        (None, w1) \<Rightarrow> w1
      | (Some (after_tracks, sc), w1) \<Rightarrow>
          if after_tracks = [] then w1
          else
            (let st = adopt_fallback sc in
             if inserted_set_video_id st = [] then w1
             else
               (let bounded_expected_index =
                      min (int expected_index) (int (length after_tracks) - 1)
                in if inserted_index st = bounded_expected_index then w1
                   else
                     (let successor_index =
                            (if inserted_index st \<ge> 0 \<and> inserted_index st < bounded_expected_index
                             then bounded_expected_index + 1 else bounded_expected_index)
                      in if successor_index \<ge> int (length after_tracks) then w1
                         else
                           (let successor_set_video_id =
                                  find_successor (inserted_set_video_id st)
                                    (drop (nat successor_index) after_tracks)
                            in if successor_set_video_id = [] then w1
                               else snd (call_edit_playlist yt playlist_id
                                           (inserted_set_video_id st, successor_set_video_id) w1))))))"

text \<open>One round of the loop \<^verbatim>\<open>for song in pending_migrations\<close> of the
  position-preserving mode, on the lists of migrated and failed songs.\<close>

definition add_preserving ::
  "'s ytmusic \<Rightarrow> string \<Rightarrow> pending_song \<Rightarrow> pending_song list \<times> dict list \<Rightarrow> 's world
   \<Rightarrow> (pending_song list \<times> dict list) \<times> 's world" where
  "add_preserving yt playlist_id song acc w =
     (case (case call_get_playlist yt playlist_id 5000 w of
              (Inl exc, w1) \<Rightarrow> ({}, w1)
            | (Inr before_snapshot, w1) \<Rightarrow>
                (before_set_video_ids_of (tracks_of before_snapshot), w1)) of
        (before_set_video_ids, w1) \<Rightarrow>
          (case call_add_playlist_items yt playlist_id [p_video_id song] False w1 of
             (Inl exc, w2) \<Rightarrow>
               ((fst acc,
                 snd acc @ [failed_entry (p_song_key song) (p_title song) (p_artist song)
                              (p_album song) (''Failed to add song to playlist: '' @ exc)]), w2)
           | (Inr r, w2) \<Rightarrow>
               (case safe_non_negative_int (expected_index_json (p_expected_index song)) of
                  None \<Rightarrow> ((fst acc @ [song], snd acc), w2)
                | Some expected_index \<Rightarrow>
                    ((fst acc @ [song], snd acc),
                     reposition_best_effort yt playlist_id (p_video_id song) expected_index
                       before_set_video_ids w2))))"

fun add_all_preserving ::
  "'s ytmusic \<Rightarrow> string \<Rightarrow> pending_song list \<Rightarrow> pending_song list \<times> dict list \<Rightarrow> 's world
   \<Rightarrow> (pending_song list \<times> dict list) \<times> 's world" where
  "add_all_preserving yt playlist_id [] acc w = (acc, w)"
| "add_all_preserving yt playlist_id (song # rest) acc w =
     (case add_preserving yt playlist_id song acc w of
        (acc', w1) \<Rightarrow> add_all_preserving yt playlist_id rest acc' w1)"

text \<open>Lines 446 to 635: the migrated and the failed songs after the additions.\<close>

definition add_pending ::
  "'s ytmusic \<Rightarrow> string \<Rightarrow> bool \<Rightarrow> pending_song list \<Rightarrow> dict list \<Rightarrow> 's world
   \<Rightarrow> (pending_song list \<times> dict list) \<times> 's world" where
  "add_pending yt playlist_id preserve_position pending failed0 w =
     (if pending = [] then (([], failed0), w)
      else if \<not> preserve_position then
        (case call_add_playlist_items yt playlist_id (map p_video_id pending) False w of
           (Inl exc, w1) \<Rightarrow>
             (([], failed0 @ map (\<lambda>song. failed_entry (p_song_key song) (p_title song)
                                      (p_artist song) (p_album song)
                                      (''Failed to add songs to playlist: '' @ exc)) pending), w1)
         | (Inr r, w1) \<Rightarrow> ((pending, failed0), w1))
      else add_all_preserving yt playlist_id pending ([], failed0) w)"

subsection \<open>The batch\<close>

text \<open>What \<^verbatim>\<open>migrate_songs\<close> reads from outside its arguments: whether the client module
  can be imported and constructed (the exception text when not), the two environment
  variables, and which files exist.\<close>

record env =
  import_error :: "string option"
  auth_file_var :: string
  file_exists :: "string \<Rightarrow> bool"
  init_error :: "string option"
  debug_var :: "string option"

definition migrate_songs ::
  "env \<Rightarrow> 's ytmusic \<Rightarrow> dict \<Rightarrow> 's world \<Rightarrow> (failure + dict) \<times> 's world" where
  "migrate_songs e yt payload w =
     (case import_error e of
        Some exc \<Rightarrow>
          (Inl (emit_error ''ytmusicapi is not installed. Install it with: pip install ytmusicapi''
                  ''missing_dependency'' 500 exc), w)
      | None \<Rightarrow>
          (let auth_file = strip (auth_file_var e) in
           if auth_file = [] then
             (Inl (emit_error ''YTMUSIC_AUTH_FILE is not configured.'' ''missing_auth_file'' 500 []), w)
           else if \<not> file_exists e auth_file then
             (Inl (emit_error (''Auth file does not exist: '' @ auth_file)
                     ''missing_auth_file'' 400 []), w)
           else
             (let playlist_id = safe_str (dict_get payload ''playlistId'') in
              if playlist_id = [] then
                (Inl (emit_error ''playlistId is required.'' ''invalid_input'' 400 []), w)
              else
                (case dict_get payload ''songs'' of
                   JList songs \<Rightarrow>
                     if songs = [] then
                       (Inl (emit_error ''songs must be a non-empty array.'' ''invalid_input'' 400 []), w)
                     else
                       (case init_error e of
                          Some exc \<Rightarrow>
                            (Inl (emit_error ''Failed to initialize ytmusicapi. Check your auth file.''
                                    ''auth_init_failed'' 400 exc), w)
                        | None \<Rightarrow>
                            (let debug_enabled =
                                   (is_truthy (dict_get payload ''debug'')
                                    \<or> is_truthy (case debug_var e of None \<Rightarrow> JNull | Some v \<Rightarrow> JStr v));
                                 preserve_position = is_truthy (dict_get payload ''preservePosition'')
                             in case resolve_all yt debug_enabled (enumerate 0 songs) empty_batch w of
                                  (b, w1) \<Rightarrow>
                                    (case add_pending yt playlist_id preserve_position
                                            (pending_migrations b) (failed b) w1 of
                                       ((successful_migrations, failed'), w2) \<Rightarrow>
                                         (Inr ([(''ok'', JBool True),
                                                (''playlistId'', JStr playlist_id),
                                                (''migrated'',
                                                   JList (map pending_json successful_migrations)),
                                                (''failed'', JList (map JDict failed'))]
                                               @ (if debug_enabled then
                                                    [(''debug'',
                                                      JDict [(''enabled'', JBool True),
                                                             (''searches'',
                                                              JList (map JDict (debug_searches b)))])]
                                                  else [])), w2))))
                 | _ \<Rightarrow>
                     (Inl (emit_error ''songs must be a non-empty array.'' ''invalid_input'' 400 []),
                      w)))))"

section \<open>Notions used in the statements\<close>

text \<open>A list of words as the normaliser produces them: no word is empty, and every
  character is a lower-case letter or a digit.\<close>

definition norm_tokens :: "string list \<Rightarrow> bool" where
  "norm_tokens ws = (\<forall>w\<in>set ws. w \<noteq> [] \<and> (\<forall>c\<in>set w. is_alnum c))"

text \<open>A row that can be the newly appended one: it carries the appended external
  identifier, and its position token is not empty and was not there before the append.\<close>

definition genuine_row :: "string \<Rightarrow> string set \<Rightarrow> json \<Rightarrow> bool" where
  "genuine_row video_id before_set_video_ids track =
     (row_video_id track = video_id \<and> row_token track \<noteq> [] \<and> row_token track \<notin> before_set_video_ids)"

text \<open>A row that can anchor the move of the inserted row: it has a token, and the token
  is not the inserted one.\<close>

definition anchor_row :: "string \<Rightarrow> json \<Rightarrow> bool" where
  "anchor_row inserted track = (row_token track \<noteq> [] \<and> row_token track \<noteq> inserted)"

text \<open>The successor token read off the words "the first row at or after the successor
  slot whose token differs from the inserted token", with nothing asked of the token
  beyond being different; the empty string when there is no such row.\<close>

definition first_differing_token :: "string \<Rightarrow> json list \<Rightarrow> string" where
  "first_differing_token inserted rows =
     (case List.find (\<lambda>r. row_token r \<noteq> inserted) rows of
        None \<Rightarrow> []
      | Some r \<Rightarrow> row_token r)"

text \<open>Rows and snapshots for the examples.\<close>

definition row :: "string \<Rightarrow> string \<Rightarrow> json" where
  "row video_id tok = JDict [(''videoId'', JStr video_id), (''setVideoId'', JStr tok)]"

definition snapshot_of :: "json list \<Rightarrow> json" where
  "snapshot_of rows = JDict [(''tracks'', JList rows)]"

definition script_of :: "json list \<Rightarrow> script" where
  "script_of snaps =
     \<lparr> snapshots = map Inr snaps, search_table = [],
       add_answer = Inr JNull, edit_answer = Inr JNull \<rparr>"

text \<open>Four rows with the tokens \<open>t1\<close> to \<open>t4\<close>, three of them with the external
  identifier \<open>v\<close>; and four rows of which the second has no token.\<close>

definition rows4 :: "json list" where
  "rows4 = [row ''v'' ''t1'', row ''x'' ''t2'', row ''v'' ''t3'', row ''v'' ''t4'']"

definition rows4_gap :: "json list" where
  "rows4_gap = [row ''a'' ''t1'', JDict [(''videoId'', JStr ''b'')], row ''c'' ''t3'', row ''v'' ''t4'']"

text \<open>For a relative move of the row at index \<open>c\<close>: the rows it would pass, nearest
  first; the number of rows on that side; the reorder call that passes one of them; and
  the number of steps made, which ends at the first neighbour without a token.\<close>

definition has_token :: "json \<Rightarrow> bool" where
  "has_token r = (row_token r \<noteq> [])"

definition neighbours :: "string \<Rightarrow> nat \<Rightarrow> json list \<Rightarrow> json list" where
  "neighbours direction c tracks =
     (if direction = ''up'' then rev (take c tracks) else drop (Suc c) tracks)"

definition headroom :: "string \<Rightarrow> nat \<Rightarrow> json list \<Rightarrow> nat" where
  "headroom direction c tracks =
     (if direction = ''up'' then c else length tracks - 1 - c)"

definition move_call :: "string \<Rightarrow> string \<Rightarrow> string \<Rightarrow> json \<Rightarrow> call" where
  "move_call playlist_id direction tok r =
     (if direction = ''up'' then EditPlaylist playlist_id tok (row_token r)
      else EditPlaylist playlist_id (row_token r) tok)"

definition passed_rows :: "string \<Rightarrow> nat \<Rightarrow> nat \<Rightarrow> json list \<Rightarrow> json list" where
  "passed_rows direction p c tracks =
     takeWhile has_token (take (min p (headroom direction c tracks)) (neighbours direction c tracks))"

text \<open>A row that a song reference points at: by its position token, or, for a row
  that has a token, by its external identifier.\<close>

definition matches_ref :: "dict \<Rightarrow> json \<Rightarrow> bool" where
  "matches_ref song_ref r =
     ((safe_str (dict_get song_ref ''setVideoId'') \<noteq> []
         \<and> row_token r = safe_str (dict_get song_ref ''setVideoId''))
      \<or> (safe_str (dict_get song_ref ''videoId'') \<noteq> []
         \<and> row_video_id r = safe_str (dict_get song_ref ''videoId'')
         \<and> row_token r \<noteq> []))"

text \<open>The error of a move whose row is not in the playlist.\<close>

definition song_not_found :: failure where
  "song_not_found =
     emit_error ''Could not find selected song in playlist.'' ''playlist_song_not_found'' 404 []"

text \<open>A request to move the row with the token \<open>tok\<close>.\<close>

definition move_payload :: "string \<Rightarrow> string \<Rightarrow> int \<Rightarrow> dict" where
  "move_payload tok direction positions =
     [(''playlistId'', JStr ''PL''), (''song'', JDict [(''setVideoId'', JStr tok)]),
      (''direction'', JStr direction), (''positions'', JInt positions)]"

text \<open>The two search results of the scoring example, in the two shapes the code reads an
  artist from (the key \<open>artist\<close>, and the list \<open>artists\<close> of the remote service), and an
  environment in which the client can be set up.\<close>

definition cand_a :: dict where
  "cand_a = [(''title'', JStr ''Bohemian Rhapsody''), (''artist'', JStr ''Queen''),
             (''videoId'', JStr ''abc'')]"

definition cand_b :: dict where
  "cand_b = [(''title'', JStr ''Bohemian Rhapsody (Remastered)''), (''artist'', JStr ''Queen''),
             (''videoId'', JStr ''def'')]"

definition cand_a_listed :: dict where
  "cand_a_listed = [(''title'', JStr ''Bohemian Rhapsody''),
                    (''artists'', JList [JDict [(''name'', JStr ''Queen'')]]),
                    (''videoId'', JStr ''abc'')]"

definition cand_b_listed :: dict where
  "cand_b_listed = [(''title'', JStr ''Bohemian Rhapsody (Remastered)''),
                    (''artists'', JList [JDict [(''name'', JStr ''Queen'')]]),
                    (''videoId'', JStr ''def'')]"

definition env_ok :: env where
  "env_ok = \<lparr> import_error = None, auth_file_var = ''auth.json'', file_exists = (\<lambda>f. True),
              init_error = None, debug_var = None \<rparr>"

text \<open>The key under which a song of the input is reported: its own \<open>songKey\<close>, or
  \<open>song-\<close> and its index; and the key of an entry of the failed list.\<close>

definition song_key_of :: "nat \<Rightarrow> json \<Rightarrow> string" where
  "song_key_of index song =
     (case song of
        JDict s \<Rightarrow> song_key_for s index
      | _ \<Rightarrow> ''song-'' @ string_of_nat index)"

definition failed_key :: "dict \<Rightarrow> string" where
  "failed_key entry = (case dict_get entry ''songKey'' of JStr k \<Rightarrow> k | _ \<Rightarrow> [])"

definition input_keys :: "json list \<Rightarrow> string list" where
  "input_keys songs = map (\<lambda>p. song_key_of (fst p) (snd p)) (enumerate 0 songs)"

text \<open>The key of what a song became in the first loop.\<close>

definition outcome_key :: "resolution \<Rightarrow> string" where
  "outcome_key out = (case out of Failed entry \<Rightarrow> failed_key entry | Pending p \<Rightarrow> p_song_key p)"

text \<open>The keys of a pair of lists of migrated and failed songs, as a multiset.\<close>

definition outcome_keys :: "pending_song list \<times> dict list \<Rightarrow> string multiset" where
  "outcome_keys r = mset (map p_song_key (fst r)) + mset (map failed_key (snd r))"

text \<open>The batch of the end-to-end example: a song that the catalogue knows, and a song
  whose title is blank.\<close>

definition song_queen :: dict where
  "song_queen = [(''title'', JStr ''Bohemian Rhapsody''), (''artist'', JStr ''Queen'')]"

definition song_untitled :: dict where
  "song_untitled = [(''title'', JStr ''  ''), (''artist'', JStr ''Queen'')]"

definition batch_payload :: "json list \<Rightarrow> dict" where
  "batch_payload songs = [(''playlistId'', JStr ''PL''), (''songs'', JList songs)]"

definition queen_pending :: pending_song where
  "queen_pending =
     \<lparr> p_song_key = ''song-0'', p_title = ''Bohemian Rhapsody'', p_artist = ''Queen'',
       p_album = [], p_expected_index = None, p_video_id = ''abc'',
       p_matched_title = ''Bohemian Rhapsody'', p_matched_artists = ''Queen'' \<rparr>"

text \<open>A client whose reads and reorder calls raise while its appends succeed, and a
  batch for the position-preserving mode: a song with a requested index, a song without
  a title, and an entry that is not an object.\<close>

definition raising_reads :: "unit ytmusic" where
  "raising_reads =
     fixed_answers (Inl ''read failed'') (Inr JNull) (Inl ''reorder failed'')
       (Inr (JList [JDict cand_a]))"

definition preserving_payload :: dict where
  "preserving_payload =
     [(''playlistId'', JStr ''PL''), (''preservePosition'', JBool True),
      (''songs'', JList [JDict (song_queen @ [(''expectedIndex'', JInt 0)]),
                         JDict song_untitled, JNull])]"

definition preserving_batch :: batch where
  "preserving_batch =
     \<lparr> pending_migrations = [queen_pending\<lparr>p_expected_index := Some 0\<rparr>],
       failed = [failed_entry ''song-1'' [] ''Queen'' [] ''Song title is required.'',
                 [(''songKey'', JStr ''song-2''),
                  (''error'', JStr ''Song payload must be an object.'')]],
       debug_searches = [] \<rparr>"

text \<open>Search results for the artist filter: the right title by another artist, another
  title by the target artist, and a title by the target artist together with another.\<close>

definition cand_cover :: dict where
  "cand_cover = [(''title'', JStr ''Bohemian Rhapsody''), (''artist'', JStr ''Abba''),
                 (''videoId'', JStr ''zzz'')]"

definition cand_live :: dict where
  "cand_live = [(''title'', JStr ''Live at Wembley''), (''artist'', JStr ''Queen''),
                (''videoId'', JStr ''qqq'')]"

definition cand_duet :: dict where
  "cand_duet = [(''title'', JStr ''Under Pressure''),
                (''artists'', JList [JDict [(''name'', JStr ''Queen'')],
                                     JDict [(''name'', JStr ''David Bowie'')]]),
                (''videoId'', JStr ''ddd'')]"

chapter \<open>Verification\<close>

section \<open>The normaliser\<close>

lemma is_alnum_not_space: "is_alnum c \<Longrightarrow> \<not> is_space c"
  by (auto simp: is_alnum_def is_space_def Let_def)

lemma is_alnum_lower_char: "is_alnum c \<Longrightarrow> lower_char c = c"
  by (auto simp: is_alnum_def lower_char_def Let_def)

lemma space_facts:
  "\<not> is_alnum (CHR '' '')" "is_space (CHR '' '')" "lower_char (CHR '' '') = CHR '' ''"
  by (simp_all add: is_alnum_def is_space_def lower_char_def)

lemma split_ws_Nil: "split_ws [] = []"
  by (simp add: split_ws.simps)

lemma split_ws_space: "is_space c \<Longrightarrow> split_ws (c # s) = split_ws s"
  by (simp add: split_ws.simps [of "c # s"] split_ws.simps [of s])

lemma split_ws_token:
  assumes "w \<noteq> []" and "\<forall>c\<in>set w. \<not> is_space c" and "t = [] \<or> is_space (hd t)"
  shows "split_ws (w @ t) = w # split_ws t"
proof -
  obtain c cs where w: "w = c # cs" using assms(1) by (cases w) auto
  have c: "\<not> is_space c" and cs: "\<forall>d\<in>set cs. \<not> is_space d"
    using assms(2) w by auto
  have tk: "takeWhile (\<lambda>d. \<not> is_space d) (cs @ t) = cs"
    using cs assms(3) by (cases t) (auto simp: takeWhile_append2 takeWhile_tail)
  have dr: "dropWhile (\<lambda>d. \<not> is_space d) (cs @ t) = t"
    using cs assms(3) by (cases t) (auto simp: dropWhile_append2)
  have "dropWhile is_space (c # cs @ t) = c # cs @ t"
    using c by simp
  then have "split_ws (c # cs @ t) =
      (c # takeWhile (\<lambda>d. \<not> is_space d) (cs @ t))
        # split_ws (dropWhile (\<lambda>d. \<not> is_space d) (cs @ t))"
    by (subst split_ws.simps) simp
  then show ?thesis
    using tk dr w by simp
qed

lemma re_sub_alnum_append:
  "\<forall>c\<in>set w. is_alnum c \<Longrightarrow> re_sub_non_alnum (w @ t) = w @ re_sub_non_alnum t"
  by (induction w) auto

lemma re_sub_space_token:
  assumes "v \<noteq> []" and "\<forall>c\<in>set v. is_alnum c"
  shows "re_sub_non_alnum (CHR '' '' # v @ t) = CHR '' '' # v @ re_sub_non_alnum t"
proof -
  obtain c cs where v: "v = c # cs" using assms(1) by (cases v) auto
  have "dropWhile (\<lambda>d. \<not> is_alnum d) (v @ t) = v @ t"
    using assms(2) v by simp
  then show ?thesis
    using assms(2) by (simp add: space_facts re_sub_alnum_append)
qed

lemma join_Cons:
  "ws \<noteq> [] \<Longrightarrow> join sep (w # ws) = w @ sep @ join sep ws"
  by (cases ws) auto

lemma join_chars:
  "c \<in> set (join sep ws) \<Longrightarrow> c \<in> set sep \<or> (\<exists>w\<in>set ws. c \<in> set w)"
  by (induction sep ws rule: join.induct) auto

lemma lower_join: "norm_tokens ws \<Longrightarrow> lower (join '' '' ws) = join '' '' ws"
  unfolding lower_def
proof (rule map_idI)
  fix c assume "norm_tokens ws" and "c \<in> set (join '' '' ws)"
  then have "c = CHR '' '' \<or> is_alnum c"
    using join_chars [of c "'' ''" ws] by (auto simp: norm_tokens_def)
  then show "lower_char c = c"
    using space_facts(3) is_alnum_lower_char by blast
qed

lemma re_sub_join:
  "norm_tokens ws \<Longrightarrow> re_sub_non_alnum (join '' '' ws) = join '' '' ws"
proof (induction ws)
  case Nil
  then show ?case by simp
next
  case (Cons w ws)
  show ?case
  proof (cases ws)
    case Nil
    then show ?thesis
      using Cons.prems re_sub_alnum_append [of w "[]"] by (simp add: norm_tokens_def)
  next
    case (Cons v vs)
    have w: "\<forall>c\<in>set w. is_alnum c" and v: "v \<noteq> []" "\<forall>c\<in>set v. is_alnum c"
      and rest: "norm_tokens ws"
      using Cons.prems Cons by (auto simp: norm_tokens_def)
    have ih: "re_sub_non_alnum (join '' '' ws) = join '' '' ws"
      using Cons.IH rest by simp
    have tail: "re_sub_non_alnum (CHR '' '' # join '' '' ws) = CHR '' '' # join '' '' ws"
    proof (cases vs)
      case Nil
      then show ?thesis
        using re_sub_space_token [OF v, of "[]"] Cons by simp
    next
      case (Cons u us)
      have "join '' '' ws = v @ (CHR '' '' # join '' '' vs)"
        using \<open>ws = v # vs\<close> Cons by simp
      moreover have "re_sub_non_alnum (v @ (CHR '' '' # join '' '' vs)) =
          v @ re_sub_non_alnum (CHR '' '' # join '' '' vs)"
        using v by (simp add: re_sub_alnum_append)
      ultimately show ?thesis
        using re_sub_space_token [OF v, of "CHR '' '' # join '' '' vs"] ih by simp
    qed
    show ?thesis
      using w tail Cons by (simp add: re_sub_alnum_append)
  qed
qed

lemma split_ws_join:
  "norm_tokens ws \<Longrightarrow> split_ws (join '' '' ws) = ws"
proof (induction ws)
  case Nil
  then show ?case by (simp add: split_ws_Nil)
next
  case (Cons w ws)
  have w: "w \<noteq> []" "\<forall>c\<in>set w. \<not> is_space c" and rest: "norm_tokens ws"
    using Cons.prems by (auto simp: norm_tokens_def is_alnum_not_space)
  show ?case
  proof (cases ws)
    case Nil
    then show ?thesis
      using split_ws_token [OF w, of "[]"] by (simp add: split_ws_Nil)
  next
    case (Cons v vs)
    have "split_ws (w @ CHR '' '' # join '' '' ws) = w # split_ws (CHR '' '' # join '' '' ws)"
      using split_ws_token [OF w, of "CHR '' '' # join '' '' ws"] by (simp add: space_facts)
    also have "\<dots> = w # split_ws (join '' '' ws)"
      by (simp add: split_ws_space space_facts)
    finally show ?thesis
      using Cons.IH rest Cons by simp
  qed
qed

lemma re_sub_chars:
  "c \<in> set (re_sub_non_alnum t) \<Longrightarrow> is_alnum c \<or> c = CHR '' ''"
  by (induction t rule: re_sub_non_alnum.induct) (auto split: if_splits)

lemma split_ws_tokens:
  "w \<in> set (split_ws t) \<Longrightarrow> w \<noteq> [] \<and> (\<forall>c\<in>set w. c \<in> set t \<and> \<not> is_space c)"
proof (induction t arbitrary: w rule: split_ws.induct)
  case (1 s)
  show ?case
  proof (cases "dropWhile is_space s")
    case Nil
    have "split_ws s = []"
      by (subst split_ws.simps) (simp only: Nil list.case)
    then show ?thesis using "1.prems" by simp
  next
    case (Cons c cs)
    have c: "\<not> is_space c" "c \<in> set s" and cs: "set cs \<subseteq> set s"
      using Cons hd_dropWhile [of is_space s] set_dropWhileD [of _ is_space s]
      by (auto simp: Cons)
    have "split_ws s = (c # takeWhile (\<lambda>d. \<not> is_space d) cs)
        # split_ws (dropWhile (\<lambda>d. \<not> is_space d) cs)"
      by (subst split_ws.simps) (simp only: Cons list.case)
    with "1.prems"
    consider "w = c # takeWhile (\<lambda>d. \<not> is_space d) cs"
      | "w \<in> set (split_ws (dropWhile (\<lambda>d. \<not> is_space d) cs))"
      by auto
    then show ?thesis
    proof cases
      case 1
      then show ?thesis
        using c cs by (auto dest: set_takeWhileD)
    next
      case 2
      then have "w \<noteq> [] \<and> (\<forall>d\<in>set w. d \<in> set (dropWhile (\<lambda>d. \<not> is_space d) cs) \<and> \<not> is_space d)"
        by (rule "1.IH" [OF Cons])
      then show ?thesis
        using cs by (auto dest: set_dropWhileD)
    qed
  qed
qed

lemma norm_tokens_normalize:
  "norm_tokens (split_ws (re_sub_non_alnum (lower v)))"
  unfolding norm_tokens_def
proof
  fix w assume "w \<in> set (split_ws (re_sub_non_alnum (lower v)))"
  then have "w \<noteq> [] \<and> (\<forall>c\<in>set w. c \<in> set (re_sub_non_alnum (lower v)) \<and> \<not> is_space c)"
    by (rule split_ws_tokens)
  then show "w \<noteq> [] \<and> (\<forall>c\<in>set w. is_alnum c)"
    using re_sub_chars space_facts(2) by blast
qed

lemma normalize_join:
  "norm_tokens ws \<Longrightarrow> normalize (join '' '' ws) = join '' '' ws"
  by (simp add: normalize_def lower_join re_sub_join split_ws_join)

text \<open>
  Claim C6. Normalising is idempotent: for every string, normalising the result again
  changes nothing. It ignores case and punctuation: \<^verbatim>\<open>"Bohemian-Rhapsody!!"\<close> and
  \<^verbatim>\<open>"bohemian rhapsody"\<close> have the same normal form, the words in lower case with one
  space between them.
\<close>

theorem C6_normalize_idempotent:
  "normalize (normalize s) = normalize s
   \<and> normalize ''Bohemian-Rhapsody!!'' = normalize ''bohemian rhapsody''
   \<and> normalize ''Bohemian-Rhapsody!!'' = ''bohemian rhapsody''"
proof -
  have "normalize (normalize s) = normalize s"
    using normalize_join [OF norm_tokens_normalize] by (simp add: normalize_def)
  moreover have "normalize ''Bohemian-Rhapsody!!'' = ''bohemian rhapsody''"
    by code_simp
  moreover have "normalize ''bohemian rhapsody'' = ''bohemian rhapsody''"
    by code_simp
  ultimately show ?thesis by simp
qed

section \<open>Finding the appended row\<close>

lemma scan_after_skip:
  "\<not> genuine_row vid B tr \<Longrightarrow>
   \<exists>st'. scan_after vid B ((k, tr) # rest) st = scan_after vid B rest st'
     \<and> inserted_set_video_id st' = inserted_set_video_id st
     \<and> inserted_index st' = inserted_index st"
  by (cases tr) (auto simp: genuine_row_def row_video_id_def row_token_def Let_def)

lemma scan_after_hit:
  "genuine_row vid B tr \<Longrightarrow>
   scan_after vid B ((k, tr) # rest) st =
     st\<lparr>inserted_set_video_id := row_token tr, inserted_index := int k\<rparr>"
  by (cases tr) (auto simp: genuine_row_def row_video_id_def row_token_def Let_def)

lemma scan_after_first_genuine:
  assumes "\<forall>p\<in>set pre. \<not> genuine_row vid B (snd p)" and "genuine_row vid B tr"
  shows "inserted_set_video_id (scan_after vid B (pre @ (k, tr) # post) st) = row_token tr
       \<and> inserted_index (scan_after vid B (pre @ (k, tr) # post) st) = int k"
  using assms
proof (induction pre arbitrary: st)
  case Nil
  then show ?case by (simp add: scan_after_hit del: scan_after.simps)
next
  case (Cons p pre)
  obtain j r where p: "p = (j, r)" by (cases p)
  have "\<not> genuine_row vid B r" using Cons.prems(1) p by simp
  from scan_after_skip [OF this, of j "pre @ (k, tr) # post" st]
  obtain st' where "scan_after vid B ((j, r) # pre @ (k, tr) # post) st =
      scan_after vid B (pre @ (k, tr) # post) st'" by blast
  then show ?case
    using Cons.IH [of st'] Cons.prems p by simp
qed

lemma scan_after_none_genuine:
  assumes "\<forall>p\<in>set ps. \<not> genuine_row vid B (snd p)"
  shows "inserted_set_video_id (scan_after vid B ps st) = inserted_set_video_id st
       \<and> inserted_index (scan_after vid B ps st) = inserted_index st"
  using assms
proof (induction ps arbitrary: st)
  case Nil
  then show ?case by simp
next
  case (Cons p ps)
  obtain j r where p: "p = (j, r)" by (cases p)
  have "\<not> genuine_row vid B r" using Cons.prems p by simp
  from scan_after_skip [OF this, of j ps st]
  obtain st' where "scan_after vid B ((j, r) # ps) st = scan_after vid B ps st'"
    and "inserted_set_video_id st' = inserted_set_video_id st"
    and "inserted_index st' = inserted_index st" by blast
  then show ?case
    using Cons.IH [of st'] Cons.prems p by simp
qed

lemma rev_enumerate_split:
  assumes "i < length xs"
  shows "rev (enumerate 0 xs) =
     rev (enumerate (Suc i) (drop (Suc i) xs)) @ (i, xs ! i) # rev (enumerate 0 (take i xs))"
proof -
  have "xs = take i xs @ xs ! i # drop (Suc i) xs"
    using assms by (simp add: id_take_nth_drop)
  then have "enumerate 0 xs = enumerate 0 (take i xs @ xs ! i # drop (Suc i) xs)"
    by simp
  also have "\<dots> = enumerate 0 (take i xs) @ (i, xs ! i) # enumerate (Suc i) (drop (Suc i) xs)"
    using assms by (simp add: enumerate_append_eq min_def)
  finally show ?thesis by simp
qed

lemma enumerate_drop_rows:
  "p \<in> set (enumerate (Suc i) (drop (Suc i) xs)) \<Longrightarrow>
   \<exists>j. i < j \<and> j < length xs \<and> snd p = xs ! j"
  by (auto simp: enumerate_eq_zip in_set_conv_nth) (metis add.commute add_Suc_right less_add_Suc2 less_diff_conv)

text \<open>
  Claim C1. For every set of tokens read before the append and every snapshot read after
  it, the scan goes from the last row to the first and stops at the first row it meets
  that carries the appended external identifier and a non-empty token that is not in the
  before-set: when row \<open>i\<close> is such a row and no later row is, the reconciler reports
  the token and the index of row \<open>i\<close>, whatever the rows in front of it carry.
\<close>

theorem C1_reconciler_finds_new_row:
  assumes "i < length after_tracks"
    and "genuine_row video_id before (after_tracks ! i)"
    and "\<forall>j. i < j \<and> j < length after_tracks \<longrightarrow> \<not> genuine_row video_id before (after_tracks ! j)"
  shows "inserted_set_video_id (adopt_fallback (scan_snapshot video_id before after_tracks))
           = row_token (after_tracks ! i)
       \<and> inserted_index (adopt_fallback (scan_snapshot video_id before after_tracks)) = int i"
proof -
  let ?pre = "rev (enumerate (Suc i) (drop (Suc i) after_tracks))"
  have pre: "\<forall>p\<in>set ?pre. \<not> genuine_row video_id before (snd p)"
    using assms(3) enumerate_drop_rows [of _ i after_tracks] by (metis set_rev)
  have "inserted_set_video_id (scan_snapshot video_id before after_tracks) = row_token (after_tracks ! i)
      \<and> inserted_index (scan_snapshot video_id before after_tracks) = int i"
    unfolding scan_snapshot_def rev_enumerate_split [OF assms(1)]
    by (rule scan_after_first_genuine [OF pre assms(2)])
  moreover have "row_token (after_tracks ! i) \<noteq> []"
    using assms(2) by (simp add: genuine_row_def)
  ultimately show ?thesis by (simp add: adopt_fallback_def)
qed

text \<open>
  The example of the claim: with the tokens \<open>t1\<close>, \<open>t2\<close>, \<open>t3\<close> before and the
  rows \<open>t1\<close>, \<open>t2\<close>, \<open>t3\<close>, \<open>t4\<close> after, the row \<open>t4\<close> at index 3 is
  selected, although the rows \<open>t1\<close> and \<open>t3\<close> carry the same external identifier.
\<close>

theorem C1_reconciler_witness:
  "3 < length [row ''v'' ''t1'', row ''x'' ''t2'', row ''v'' ''t3'', row ''v'' ''t4'']
   \<and> genuine_row ''v'' {''t1'', ''t2'', ''t3''}
        ([row ''v'' ''t1'', row ''x'' ''t2'', row ''v'' ''t3'', row ''v'' ''t4''] ! 3)
   \<and> inserted_set_video_id (adopt_fallback (scan_snapshot ''v'' {''t1'', ''t2'', ''t3''}
        [row ''v'' ''t1'', row ''x'' ''t2'', row ''v'' ''t3'', row ''v'' ''t4''])) = ''t4''
   \<and> inserted_index (adopt_fallback (scan_snapshot ''v'' {''t1'', ''t2'', ''t3''}
        [row ''v'' ''t1'', row ''x'' ''t2'', row ''v'' ''t3'', row ''v'' ''t4''])) = 3"
proof -
  let ?after = "[row ''v'' ''t1'', row ''x'' ''t2'', row ''v'' ''t3'', row ''v'' ''t4'']"
  have h1: "3 < length ?after" by simp
  have h2: "genuine_row ''v'' {''t1'', ''t2'', ''t3''} (?after ! 3)" by code_simp
  have h3: "\<forall>j. 3 < j \<and> j < length ?after \<longrightarrow> \<not> genuine_row ''v'' {''t1'', ''t2'', ''t3''} (?after ! j)"
  proof (intro allI impI)
    fix j :: nat assume "3 < j \<and> j < length ?after"
    then have False by auto
    then show "\<not> genuine_row ''v'' {''t1'', ''t2'', ''t3''} (?after ! j)" ..
  qed
  have tok: "row_token (?after ! 3) = ''t4''" by code_simp
  have "inserted_set_video_id (adopt_fallback (scan_snapshot ''v'' {''t1'', ''t2'', ''t3''} ?after))
          = row_token (?after ! 3)
      \<and> inserted_index (adopt_fallback (scan_snapshot ''v'' {''t1'', ''t2'', ''t3''} ?after)) = int 3"
    by (rule C1_reconciler_finds_new_row [OF h1 h2 h3])
  then show ?thesis
    using h1 h2 unfolding tok by simp
qed

section \<open>Moving the appended row to the requested index\<close>

lemma find_successor_skip:
  "\<not> anchor_row tok r \<Longrightarrow> find_successor tok (r # rest) = find_successor tok rest"
  by (cases r) (auto simp: anchor_row_def row_token_def Let_def)

lemma find_successor_hit:
  "anchor_row tok r \<Longrightarrow> find_successor tok (r # rest) = row_token r"
  by (cases r) (auto simp: anchor_row_def row_token_def Let_def)

lemma find_successor_none:
  "\<forall>r\<in>set rows. \<not> anchor_row tok r \<Longrightarrow> find_successor tok rows = []"
  by (induction rows) (simp_all add: find_successor_skip del: find_successor.simps(2))

lemma find_successor_first:
  "\<forall>r\<in>set pre. \<not> anchor_row tok r \<Longrightarrow> anchor_row tok r0 \<Longrightarrow>
   find_successor tok (pre @ r0 # post) = row_token r0"
  by (induction pre)
     (simp_all add: find_successor_skip find_successor_hit del: find_successor.simps(2))

lemma drop_split_at:
  assumes "slot \<le> j" and "j < length xs"
  shows "drop slot xs = take (j - slot) (drop slot xs) @ xs ! j # drop (Suc j) xs"
proof -
  have "drop slot xs = take (j - slot) (drop slot xs) @ drop (j - slot) (drop slot xs)"
    by (rule append_take_drop_id [symmetric])
  moreover have "drop (j - slot) (drop slot xs) = drop j xs"
    using assms by simp
  moreover have "drop j xs = xs ! j # drop (Suc j) xs"
    using assms by (simp add: Cons_nth_drop_Suc)
  ultimately show ?thesis by simp
qed

lemma rows_between:
  assumes "r \<in> set (take (j - slot) (drop slot xs))" and "slot \<le> j" and "j < length xs"
  shows "\<exists>k. slot \<le> k \<and> k < j \<and> r = xs ! k"
proof -
  from assms(1) obtain m where m: "m < j - slot" "m < length xs - slot"
      and r: "r = take (j - slot) (drop slot xs) ! m"
    by (auto simp: in_set_conv_nth)
  have "r = xs ! (slot + m)" using m r by simp
  then show ?thesis using m by (intro exI [of _ "slot + m"]) auto
qed

lemma find_successor_at:
  assumes "slot \<le> j" and "j < length xs" and "anchor_row tok (xs ! j)"
    and "\<forall>k. slot \<le> k \<and> k < j \<longrightarrow> \<not> anchor_row tok (xs ! k)"
  shows "find_successor tok (drop slot xs) = row_token (xs ! j)"
proof -
  have "\<forall>r\<in>set (take (j - slot) (drop slot xs)). \<not> anchor_row tok r"
    using rows_between [OF _ assms(1,2)] assms(4) by blast
  from find_successor_first [OF this assms(3)]
  show ?thesis using drop_split_at [OF assms(1,2)] by metis
qed

lemma find_successor_absent:
  assumes "\<forall>k. slot \<le> k \<and> k < length xs \<longrightarrow> \<not> anchor_row tok (xs ! k)"
  shows "find_successor tok (drop slot xs) = []"
proof (rule find_successor_none, rule ballI)
  fix r assume "r \<in> set (drop slot xs)"
  then obtain m where "m < length xs - slot" "r = xs ! (slot + m)"
    by (auto simp: in_set_conv_nth)
  then show "\<not> anchor_row tok r" using assms by simp
qed

text \<open>
  Claim C2, with the successor row as the code takes it. For an after-snapshot of
  \<open>N \<ge> 1\<close> rows, the inserted row at index \<open>i\<close> and the requested index
  \<open>e\<close>, the target is \<open>t = min e (N - 1)\<close>. When \<open>i = t\<close> no call is issued and
  the answer says \<open>moved: false\<close>. Otherwise the successor slot is \<open>t + 1\<close> when
  \<open>i < t\<close> and \<open>t\<close> when \<open>i > t\<close>, and the successor is the first row at or after
  that slot whose token is not empty and differs from the inserted token: when there
  is none, no call is issued and the answer says \<open>moved: false\<close> with index \<open>N - 1\<close>;
  when it is row \<open>j\<close>, exactly one reorder call moves the inserted token in front of
  the token of row \<open>j\<close>, and the answer says index \<open>t\<close> and \<open>moved: true\<close> (or, when
  the call raises, the error \<open>playlist_song_move_failed\<close>).
\<close>

theorem C2_insert_planning:
  assumes "i < length after_tracks"
    and "t = min e (length after_tracks - 1)"
    and "slot = (if i < t then t + 1 else t)"
  shows "(i = t \<longrightarrow>
            position_inserted yt playlist_id video_id e after_tracks tok (int i) w =
              (Inr (insert_response playlist_id video_id (int t) False), w))
       \<and> (i \<noteq> t \<and> (\<forall>k. slot \<le> k \<and> k < length after_tracks \<longrightarrow> \<not> anchor_row tok (after_tracks ! k)) \<longrightarrow>
            position_inserted yt playlist_id video_id e after_tracks tok (int i) w =
              (Inr (insert_response playlist_id video_id (int (length after_tracks) - 1) False), w))
       \<and> (i \<noteq> t \<and> slot \<le> j \<and> j < length after_tracks \<and> anchor_row tok (after_tracks ! j)
            \<and> (\<forall>k. slot \<le> k \<and> k < j \<longrightarrow> \<not> anchor_row tok (after_tracks ! k)) \<longrightarrow>
            position_inserted yt playlist_id video_id e after_tracks tok (int i) w =
              (case edit_playlist yt playlist_id (tok, row_token (after_tracks ! j)) (fst w) of
                 (Inl exc, s') \<Rightarrow>
                   (Inl (emit_error
                          ''Video was added but could not be moved to requested position.''
                          ''playlist_song_move_failed'' 502 exc),
                    (s', snd w @ [EditPlaylist playlist_id tok (row_token (after_tracks ! j))]))
               | (Inr r, s') \<Rightarrow>
                   (Inr (insert_response playlist_id video_id (int t) True),
                    (s', snd w @ [EditPlaylist playlist_id tok (row_token (after_tracks ! j))]))))"
proof -
  have bounded: "min (int e) (int (length after_tracks) - 1) = int t"
    using assms(1,2) by (auto simp: min_def)
  have unfold: "position_inserted yt playlist_id video_id e after_tracks tok (int i) w =
     (if i = t then (Inr (insert_response playlist_id video_id (int t) False), w)
      else if slot \<ge> length after_tracks then
        (Inr (insert_response playlist_id video_id (int (length after_tracks) - 1) False), w)
      else if find_successor tok (drop slot after_tracks) = [] then
        (Inr (insert_response playlist_id video_id (int (length after_tracks) - 1) False), w)
      else
        (case call_edit_playlist yt playlist_id
                (tok, find_successor tok (drop slot after_tracks)) w of
           (Inl exc, w1) \<Rightarrow>
             (Inl (emit_error
                    ''Video was added but could not be moved to requested position.''
                    ''playlist_song_move_failed'' 502 exc), w1)
         | (Inr r, w1) \<Rightarrow>
             (Inr (insert_response playlist_id video_id (int t) True), w1)))"
  proof (cases "i < t")
    case True
    then have "nat (int t + 1) = slot" using assms(3) by simp
    then show ?thesis
      using True assms(3) by (simp add: position_inserted_def bounded Let_def)
  next
    case False
    then have "nat (int t) = slot" using assms(3) by simp
    then show ?thesis
      using False assms(3) by (simp add: position_inserted_def bounded Let_def)
  qed
  have p1: "i = t \<longrightarrow>
      position_inserted yt playlist_id video_id e after_tracks tok (int i) w =
        (Inr (insert_response playlist_id video_id (int t) False), w)"
    unfolding unfold by simp
  have p2: "i \<noteq> t \<and> (\<forall>k. slot \<le> k \<and> k < length after_tracks \<longrightarrow> \<not> anchor_row tok (after_tracks ! k)) \<longrightarrow>
      position_inserted yt playlist_id video_id e after_tracks tok (int i) w =
        (Inr (insert_response playlist_id video_id (int (length after_tracks) - 1) False), w)"
  proof
    assume a: "i \<noteq> t \<and> (\<forall>k. slot \<le> k \<and> k < length after_tracks \<longrightarrow> \<not> anchor_row tok (after_tracks ! k))"
    then have "find_successor tok (drop slot after_tracks) = []"
      using find_successor_absent by blast
    then show "position_inserted yt playlist_id video_id e after_tracks tok (int i) w =
        (Inr (insert_response playlist_id video_id (int (length after_tracks) - 1) False), w)"
      using a unfolding unfold by simp
  qed
  have p3: "i \<noteq> t \<and> slot \<le> j \<and> j < length after_tracks \<and> anchor_row tok (after_tracks ! j)
            \<and> (\<forall>k. slot \<le> k \<and> k < j \<longrightarrow> \<not> anchor_row tok (after_tracks ! k)) \<longrightarrow>
      position_inserted yt playlist_id video_id e after_tracks tok (int i) w =
        (case edit_playlist yt playlist_id (tok, row_token (after_tracks ! j)) (fst w) of
           (Inl exc, s') \<Rightarrow>
             (Inl (emit_error
                    ''Video was added but could not be moved to requested position.''
                    ''playlist_song_move_failed'' 502 exc),
              (s', snd w @ [EditPlaylist playlist_id tok (row_token (after_tracks ! j))]))
         | (Inr r, s') \<Rightarrow>
             (Inr (insert_response playlist_id video_id (int t) True),
              (s', snd w @ [EditPlaylist playlist_id tok (row_token (after_tracks ! j))])))"
  proof
    assume a: "i \<noteq> t \<and> slot \<le> j \<and> j < length after_tracks \<and> anchor_row tok (after_tracks ! j)
            \<and> (\<forall>k. slot \<le> k \<and> k < j \<longrightarrow> \<not> anchor_row tok (after_tracks ! k))"
    then have fs: "find_successor tok (drop slot after_tracks) = row_token (after_tracks ! j)"
      using find_successor_at by blast
    have ne: "row_token (after_tracks ! j) \<noteq> []"
      using a by (simp add: anchor_row_def)
    have lt: "\<not> int slot \<ge> int (length after_tracks)"
      using a by simp
    show "position_inserted yt playlist_id video_id e after_tracks tok (int i) w =
        (case edit_playlist yt playlist_id (tok, row_token (after_tracks ! j)) (fst w) of
           (Inl exc, s') \<Rightarrow>
             (Inl (emit_error
                    ''Video was added but could not be moved to requested position.''
                    ''playlist_song_move_failed'' 502 exc),
              (s', snd w @ [EditPlaylist playlist_id tok (row_token (after_tracks ! j))]))
         | (Inr r, s') \<Rightarrow>
             (Inr (insert_response playlist_id video_id (int t) True),
              (s', snd w @ [EditPlaylist playlist_id tok (row_token (after_tracks ! j))])))"
      using a ne unfolding unfold fs
      by (simp add: call_edit_playlist_def split: prod.splits sum.splits)
  qed
  show ?thesis using p1 p2 p3 by blast
qed

text \<open>
  The example of the claim, through the whole handler: three rows before, four rows
  after, the new row at index 3 and the requested index 1. One reorder call is issued,
  against the token at index 1.
\<close>

lemma insert_example:
  "handle_insert_video_at_position scripted
     [(''playlistId'', JStr ''PL''), (''videoId'', JStr ''v''), (''expectedIndex'', JInt 1)]
     (script_of [snapshot_of (take 3 rows4), snapshot_of rows4], []) =
   (Inr (insert_response ''PL'' ''v'' 1 True),
    (script_of [],
     [GetPlaylist ''PL'' 5000, AddPlaylistItems ''PL'' [''v''] False,
      GetPlaylist ''PL'' 5000, EditPlaylist ''PL'' ''t4'' ''t2'']))"
  by code_simp

theorem C2_insert_planning_witness:
  "(3::nat) < length rows4 \<and> (1::nat) = min 1 (length rows4 - 1)
   \<and> (1::nat) = (if (3::nat) < 1 then 1 + 1 else 1)
   \<and> anchor_row ''t4'' (rows4 ! 1)
   \<and> position_inserted scripted ''PL'' ''v'' 1 rows4 ''t4'' 3 (script_of [], []) =
       (Inr (insert_response ''PL'' ''v'' 1 True),
        (script_of [], [EditPlaylist ''PL'' ''t4'' ''t2'']))"
proof -
  have h1: "(3::nat) < length rows4" by (simp add: rows4_def)
  have h2: "(1::nat) = min 1 (length rows4 - 1)" by (simp add: rows4_def)
  have h3: "(1::nat) = (if (3::nat) < 1 then 1 + 1 else 1)" by simp
  have a: "anchor_row ''t4'' (rows4 ! 1)" by code_simp
  have tok: "row_token (rows4 ! 1) = ''t2''" by code_simp
  have none: "\<forall>k. (1::nat) \<le> k \<and> k < 1 \<longrightarrow> \<not> anchor_row ''t4'' (rows4 ! k)" by auto
  have ed: "edit_playlist scripted ''PL'' (''t4'', ''t2'') (script_of []) = (Inr JNull, script_of [])"
    by (simp add: scripted_def script_of_def)
  have "position_inserted scripted ''PL'' ''v'' 1 rows4 ''t4'' (int 3) (script_of [], []) =
      (case edit_playlist scripted ''PL'' (''t4'', row_token (rows4 ! 1)) (fst (script_of [], [])) of
         (Inl exc, s') \<Rightarrow>
           (Inl (emit_error
                  ''Video was added but could not be moved to requested position.''
                  ''playlist_song_move_failed'' 502 exc),
            (s', snd (script_of [], []) @ [EditPlaylist ''PL'' ''t4'' (row_token (rows4 ! 1))]))
       | (Inr r, s') \<Rightarrow>
           (Inr (insert_response ''PL'' ''v'' (int 1) True),
            (s', snd (script_of [], []) @ [EditPlaylist ''PL'' ''t4'' (row_token (rows4 ! 1))])))"
    using C2_insert_planning [OF h1 h2 h3, where j = 1 and tok = "''t4''" and yt = scripted
        and playlist_id = "''PL''" and video_id = "''v''" and w = "(script_of [], [])"]
      a none h1 by simp
  then show ?thesis
    using h1 h2 a unfolding tok by (simp add: ed)
qed

text \<open>
  The claim as it is worded takes the first row whose token differs from the inserted
  one. A row without a token has a token (the empty one) that differs, but the code
  passes over it: in \<open>rows4_gap\<close> the row at the successor slot 1 has no token, and the
  reorder call goes against the token \<open>t3\<close> of the row at index 2.
\<close>

theorem C2_successor_counterexample:
  "row_token (rows4_gap ! 1) \<noteq> ''t4''
   \<and> first_differing_token ''t4'' (drop 1 rows4_gap) = []
   \<and> position_inserted scripted ''PL'' ''v'' 1 rows4_gap ''t4'' 3 (script_of [], []) =
       (Inr (insert_response ''PL'' ''v'' 1 True),
        (script_of [], [EditPlaylist ''PL'' ''t4'' ''t3'']))"
  by code_simp


section \<open>Moving a row by a number of positions\<close>

lemma py_index_nat: "i < length xs \<Longrightarrow> py_index xs (int i) = Some (xs ! i)"
  by (simp add: py_index_def)

lemma py_store_nat: "i < length xs \<Longrightarrow> py_store xs (int i) v = Some (xs[i := v])"
  by (simp add: py_store_def)

lemma py_swap_nat:
  assumes "i < length xs" and "j < length xs"
  shows "py_swap xs (int i) (int j) = Some (xs[i := xs ! j, j := xs ! i])"
  using assms by (simp add: py_swap_def py_index_nat py_store_nat)

lemma call_edit_ok:
  assumes "\<forall>mi s. \<exists>r s'. edit_playlist yt playlist_id mi s = (Inr r, s')"
  shows "\<exists>r s'. call_edit_playlist yt playlist_id (a, b) w =
           (Inr r, (s', snd w @ [EditPlaylist playlist_id a b]))"
proof -
  from assms obtain r s' where "edit_playlist yt playlist_id (a, b) (fst w) = (Inr r, s')"
    by blast
  then show ?thesis by (simp add: call_edit_playlist_def)
qed

lemma move_steps_up:
  assumes "\<forall>mi s. \<exists>r s'. edit_playlist yt playlist_id mi s = (Inr r, s')"
    and "n \<le> c" and "c < length tracks"
  shows "\<exists>tracks' s'. move_steps yt playlist_id ''up'' tok n tracks (int c) w =
      (Inr (tracks', int (c - length (takeWhile has_token (take n (rev (take c tracks)))))),
       (s', snd w @ map (\<lambda>r. EditPlaylist playlist_id tok (row_token r))
                        (takeWhile has_token (take n (rev (take c tracks))))))"
  using assms(2,3)
proof (induction n arbitrary: tracks c w)
  case 0
  then show ?case by (cases w) simp
next
  case (Suc n)
  then obtain c' where c: "c = Suc c'" by (cases c) auto
  have c'lt: "c' < length tracks" using Suc.prems c by simp
  have eq: "int c - 1 = int c'" using c by simp
  have idx: "py_index tracks (int c') = Some (tracks ! c')"
    by (rule py_index_nat [OF c'lt])
  have nb: "take (Suc n) (rev (take c tracks)) = tracks ! c' # take n (rev (take c' tracks))"
    using c c'lt by (simp add: take_Suc_conv_app_nth)
  show ?case
  proof (cases "has_token (tracks ! c')")
    case False
    then have "row_token (tracks ! c') = []" by (simp add: has_token_def)
    then have "move_steps yt playlist_id ''up'' tok (Suc n) tracks (int c) w = (Inr (tracks, int c), w)"
      by (simp add: eq idx)
    moreover have "takeWhile has_token (take (Suc n) (rev (take c tracks))) = []"
      using False by (simp add: nb)
    ultimately show ?thesis by (cases w) simp
  next
    case True
    then have tokne: "row_token (tracks ! c') \<noteq> []" by (simp add: has_token_def)
    let ?w1log = "snd w @ [EditPlaylist playlist_id tok (row_token (tracks ! c'))]"
    obtain r s1 where ed: "call_edit_playlist yt playlist_id (tok, row_token (tracks ! c')) w =
        (Inr r, (s1, ?w1log))"
      using call_edit_ok [OF assms(1)] by blast
    define tracks1 where "tracks1 = tracks[c' := tracks ! c, c := tracks ! c']"
    have sw: "py_swap tracks (int c') (int c) = Some tracks1"
      using py_swap_nat [OF c'lt Suc.prems(2)] by (simp add: tracks1_def)
    have len: "c' < length tracks1" using c'lt by (simp add: tracks1_def)
    have nle: "n \<le> c'" using Suc.prems c by simp
    have tk: "take c' tracks1 = take c' tracks" by (simp add: tracks1_def c)
    from Suc.IH [OF nle len, of "(s1, ?w1log)"]
    obtain tracks' s' where ih: "move_steps yt playlist_id ''up'' tok n tracks1 (int c') (s1, ?w1log) =
        (Inr (tracks', int (c' - length (takeWhile has_token (take n (rev (take c' tracks)))))),
         (s', ?w1log @ map (\<lambda>r. EditPlaylist playlist_id tok (row_token r))
                  (takeWhile has_token (take n (rev (take c' tracks))))))"
      unfolding tk by auto
    have step: "move_steps yt playlist_id ''up'' tok (Suc n) tracks (int c) w =
          move_steps yt playlist_id ''up'' tok n tracks1 (int c') (s1, ?w1log)"
      using tokne by (simp add: eq idx ed sw)
    have tw: "takeWhile has_token (take (Suc n) (rev (take c tracks))) =
        tracks ! c' # takeWhile has_token (take n (rev (take c' tracks)))"
      using True by (simp add: nb)
    show ?thesis
      unfolding step ih tw by (simp add: c)
  qed
qed

lemma move_steps_down:
  assumes "\<forall>mi s. \<exists>r s'. edit_playlist yt playlist_id mi s = (Inr r, s')"
    and "direction \<noteq> ''up''"
    and "n \<le> length tracks - 1 - c" and "c < length tracks"
  shows "\<exists>tracks' s'. move_steps yt playlist_id direction tok n tracks (int c) w =
      (Inr (tracks', int (c + length (takeWhile has_token (take n (drop (Suc c) tracks))))),
       (s', snd w @ map (\<lambda>r. EditPlaylist playlist_id (row_token r) tok)
                        (takeWhile has_token (take n (drop (Suc c) tracks)))))"
  using assms(3,4)
proof (induction n arbitrary: tracks c w)
  case 0
  then show ?case by (cases w) simp
next
  case (Suc n)
  have c1: "Suc c < length tracks" using Suc.prems by simp
  have eq: "int c + 1 = int (Suc c)" by simp
  have idx: "py_index tracks (int (Suc c)) = Some (tracks ! Suc c)"
    by (rule py_index_nat [OF c1])
  have nb: "take (Suc n) (drop (Suc c) tracks) = tracks ! Suc c # take n (drop (Suc (Suc c)) tracks)"
    using c1 by (simp add: Cons_nth_drop_Suc [symmetric])
  show ?case
  proof (cases "has_token (tracks ! Suc c)")
    case False
    then have "row_token (tracks ! Suc c) = []" by (simp add: has_token_def)
    then have "move_steps yt playlist_id direction tok (Suc n) tracks (int c) w = (Inr (tracks, int c), w)"
      using assms(2) by (simp add: eq idx del: of_nat_Suc)
    moreover have "takeWhile has_token (take (Suc n) (drop (Suc c) tracks)) = []"
      using False by (simp add: nb)
    ultimately show ?thesis by (cases w) simp
  next
    case True
    then have tokne: "row_token (tracks ! Suc c) \<noteq> []" by (simp add: has_token_def)
    let ?w1log = "snd w @ [EditPlaylist playlist_id (row_token (tracks ! Suc c)) tok]"
    obtain r s1 where ed: "call_edit_playlist yt playlist_id (row_token (tracks ! Suc c), tok) w =
        (Inr r, (s1, ?w1log))"
      using call_edit_ok [OF assms(1)] by blast
    define tracks1 where "tracks1 = tracks[c := tracks ! Suc c, Suc c := tracks ! c]"
    have sw: "py_swap tracks (int c) (int (Suc c)) = Some tracks1"
      using py_swap_nat [OF Suc.prems(2) c1] by (simp add: tracks1_def)
    have len: "Suc c < length tracks1" using c1 by (simp add: tracks1_def)
    have nle: "n \<le> length tracks1 - 1 - Suc c" using Suc.prems by (simp add: tracks1_def)
    have dr: "drop (Suc (Suc c)) tracks1 = drop (Suc (Suc c)) tracks" by (simp add: tracks1_def)
    from Suc.IH [OF nle len, of "(s1, ?w1log)"]
    obtain tracks' s' where ih: "move_steps yt playlist_id direction tok n tracks1 (int (Suc c)) (s1, ?w1log) =
        (Inr (tracks', int (Suc c + length (takeWhile has_token (take n (drop (Suc (Suc c)) tracks))))),
         (s', ?w1log @ map (\<lambda>r. EditPlaylist playlist_id (row_token r) tok)
                  (takeWhile has_token (take n (drop (Suc (Suc c)) tracks)))))"
      unfolding dr by auto
    have step: "move_steps yt playlist_id direction tok (Suc n) tracks (int c) w =
          move_steps yt playlist_id direction tok n tracks1 (int (Suc c)) (s1, ?w1log)"
      using tokne assms(2) by (simp add: eq idx ed sw del: of_nat_Suc)
    have tw: "takeWhile has_token (take (Suc n) (drop (Suc c) tracks)) =
        tracks ! Suc c # takeWhile has_token (take n (drop (Suc (Suc c)) tracks))"
      using True by (simp add: nb)
    show ?thesis
      unfolding step ih tw by simp
  qed
qed

lemma find_by_token_Some:
  "find_by_token target i tracks = Some (j, t) \<Longrightarrow>
   i \<le> j \<and> j < i + length tracks \<and> t = target \<and> row_token (tracks ! (j - i)) = target"
proof (induction tracks arbitrary: i)
  case Nil
  then show ?case by simp
next
  case (Cons r rest)
  show ?case
  proof (cases "row_token r = target \<and> (\<exists>d. r = JDict d)")
    case True
    then have "find_by_token target i (r # rest) = Some (i, target)"
      by (auto simp: row_token_def)
    then show ?thesis using Cons.prems True by simp
  next
    case False
    then have "find_by_token target i (r # rest) = find_by_token target (Suc i) rest"
      by (cases r) (auto simp: row_token_def Let_def)
    then have "find_by_token target (Suc i) rest = Some (j, t)" using Cons.prems by simp
    from Cons.IH [OF this] show ?thesis by (auto simp: Suc_diff_le)
  qed
qed

lemma find_by_token_None:
  "target \<noteq> [] \<Longrightarrow> \<forall>r\<in>set tracks. row_token r \<noteq> target \<Longrightarrow>
   find_by_token target i tracks = None"
proof (induction tracks arbitrary: i)
  case Nil
  then show ?case by simp
next
  case (Cons r rest)
  then show ?case by (cases r) (auto simp: row_token_def Let_def)
qed

lemma find_by_video_id_Some:
  "find_by_video_id target i tracks = Some (j, t) \<Longrightarrow>
   i \<le> j \<and> j < i + length tracks \<and> t \<noteq> [] \<and> t = row_token (tracks ! (j - i))
   \<and> row_video_id (tracks ! (j - i)) = target"
proof (induction tracks arbitrary: i)
  case Nil
  then show ?case by simp
next
  case (Cons r rest)
  show ?case
  proof (cases "row_video_id r = target \<and> row_token r \<noteq> [] \<and> (\<exists>d. r = JDict d)")
    case True
    then have "find_by_video_id target i (r # rest) = Some (i, row_token r)"
      by (auto simp: row_token_def row_video_id_def)
    then show ?thesis using Cons.prems True by auto
  next
    case False
    then have "find_by_video_id target i (r # rest) = find_by_video_id target (Suc i) rest"
      by (cases r) (auto simp: row_token_def row_video_id_def Let_def)
    then have "find_by_video_id target (Suc i) rest = Some (j, t)" using Cons.prems by simp
    from Cons.IH [OF this] show ?thesis by (auto simp: Suc_diff_le)
  qed
qed

lemma find_by_video_id_None:
  "\<forall>r\<in>set tracks. \<not> (row_video_id r = target \<and> row_token r \<noteq> []) \<Longrightarrow>
   find_by_video_id target i tracks = None"
proof (induction tracks arbitrary: i)
  case Nil
  then show ?case by simp
next
  case (Cons r rest)
  then show ?case by (cases r) (auto simp: row_token_def row_video_id_def Let_def)
qed

lemma locate_found:
  assumes "locate_playlist_song_index tracks song_ref = (int c, tok)"
  shows "c < length tracks \<and> tok \<noteq> [] \<and> tok = row_token (tracks ! c)"
proof -
  let ?t = "safe_str (dict_get song_ref ''setVideoId'')"
  let ?v = "safe_str (dict_get song_ref ''videoId'')"
  show ?thesis
  proof (cases "?t \<noteq> [] \<and> find_by_token ?t 0 tracks \<noteq> None")
    case True
    then obtain j t where f: "find_by_token ?t 0 tracks = Some (j, t)" by auto
    then have "locate_playlist_song_index tracks song_ref = (int j, t)"
      using True by (simp add: locate_playlist_song_index_def)
    then show ?thesis
      using assms find_by_token_Some [OF f] True by auto
  next
    case False
    then have by_tok: "(if ?t \<noteq> [] then find_by_token ?t 0 tracks else None) = None"
      by (cases "find_by_token ?t 0 tracks") auto
    show ?thesis
    proof (cases "?v \<noteq> [] \<and> find_by_video_id ?v 0 tracks \<noteq> None")
      case True
      then obtain j t where f: "find_by_video_id ?v 0 tracks = Some (j, t)" by auto
      then have "locate_playlist_song_index tracks song_ref = (int j, t)"
        using True by_tok by (simp add: locate_playlist_song_index_def Let_def)
      then show ?thesis
        using assms find_by_video_id_Some [OF f] by auto
    next
      case False
      then have "(if ?v \<noteq> [] then find_by_video_id ?v 0 tracks else None) = None"
        by (cases "find_by_video_id ?v 0 tracks") auto
      then have "locate_playlist_song_index tracks song_ref = (- 1, [])"
        using by_tok by (simp add: locate_playlist_song_index_def Let_def)
      then show ?thesis using assms by simp
    qed
  qed
qed

lemma locate_not_found:
  assumes "\<forall>r\<in>set tracks. \<not> matches_ref song_ref r"
  shows "locate_playlist_song_index tracks song_ref = (- 1, [])"
proof -
  let ?t = "safe_str (dict_get song_ref ''setVideoId'')"
  let ?v = "safe_str (dict_get song_ref ''videoId'')"
  have "(if ?t \<noteq> [] then find_by_token ?t 0 tracks else None) = None"
    using assms find_by_token_None [of ?t tracks 0] by (auto simp: matches_ref_def)
  moreover have "(if ?v \<noteq> [] then find_by_video_id ?v 0 tracks else None) = None"
    using assms find_by_video_id_None [of tracks ?v 0] by (auto simp: matches_ref_def)
  ultimately show ?thesis
    by (simp add: locate_playlist_song_index_def Let_def)
qed

lemma normalize_ref_nonempty:
  "normalize_playlist_song_ref v = Some song_ref \<Longrightarrow> song_ref \<noteq> []"
  by (cases v) (auto simp: normalize_playlist_song_ref_def Let_def split: if_splits)

lemma handle_move_read:
  assumes "safe_str (dict_get payload ''playlistId'') = playlist_id" and "playlist_id \<noteq> []"
    and "normalize_playlist_song_ref (dict_get payload ''song'') = Some song_ref"
    and "lower (safe_str (dict_get payload ''direction'')) = direction"
    and "direction = ''up'' \<or> direction = ''down''"
    and "safe_non_negative_int (dict_get payload ''positions'') = Some p" and "0 < p"
    and "get_playlist yt playlist_id 5000 (fst w) = (Inr snapshot, s1)"
  shows "handle_move_playlist_song yt payload w =
     (case tracks_of snapshot of
        JList tracks \<Rightarrow>
          if length tracks < 2 then
            (Inr (move_response playlist_id False 0 0), (s1, snd w @ [GetPlaylist playlist_id 5000]))
          else
            (case locate_playlist_song_index tracks song_ref of
               (current_index, moved_set_video_id) \<Rightarrow>
                 if current_index < 0 \<or> moved_set_video_id = [] then
                   (Inl song_not_found, (s1, snd w @ [GetPlaylist playlist_id 5000]))
                 else
                   (let steps = (if direction = ''up'' then min (int p) current_index
                                 else min (int p) (int (length tracks) - 1 - current_index))
                    in if steps \<le> 0 then
                         (Inr (move_response playlist_id False current_index current_index),
                          (s1, snd w @ [GetPlaylist playlist_id 5000]))
                       else
                         (case move_steps yt playlist_id direction moved_set_video_id (nat steps)
                                 tracks current_index (s1, snd w @ [GetPlaylist playlist_id 5000]) of
                            (Inl f, w2) \<Rightarrow> (Inl f, w2)
                          | (Inr (tracks', final_index), w2) \<Rightarrow>
                              (Inr (move_response playlist_id (final_index \<noteq> current_index)
                                      current_index final_index), w2))))
      | _ \<Rightarrow> (Inr (move_response playlist_id False 0 0), (s1, snd w @ [GetPlaylist playlist_id 5000])))"
proof -
  have ne: "song_ref \<noteq> []" using normalize_ref_nonempty [OF assms(3)] .
  have get: "call_get_playlist yt playlist_id 5000 w =
      (Inr snapshot, (s1, snd w @ [GetPlaylist playlist_id 5000]))"
    using assms(8) by (simp add: call_get_playlist_def)
  have dir: "direction \<in> {''up'', ''down''}" using assms(5) by auto
  show ?thesis
    unfolding handle_move_playlist_song_def assms(1) Let_def assms(3) assms(4) assms(6)
      song_not_found_def
    using assms(2) ne dir assms(7) get
    by (simp del: move_steps.simps insert_iff)
qed

lemma passed_rows_length:
  "length (passed_rows direction p c tracks) \<le> min p (headroom direction c tracks)"
proof -
  have "length (passed_rows direction p c tracks)
      \<le> length (take (min p (headroom direction c tracks)) (neighbours direction c tracks))"
    unfolding passed_rows_def by (rule length_takeWhile_le)
  then show ?thesis by simp
qed

lemma neighbours_length:
  "c < length tracks \<Longrightarrow> length (neighbours direction c tracks) = headroom direction c tracks"
  by (auto simp: neighbours_def headroom_def)

text \<open>
  Claim C3. For a snapshot of \<open>N \<ge> 2\<close> rows that holds the target row at index
  \<open>c\<close>, a positive number of positions \<open>p\<close> and either direction, when the reorder
  calls do not raise: the move makes one step for each neighbour with a token, up to
  \<open>min p c\<close> steps upwards and \<open>min p (N - 1 - c)\<close> steps downwards, and stops
  before the first neighbour without a token; so it makes exactly that minimum when all
  the neighbours on the way have tokens. One reorder call is issued per step. The answer
  carries \<open>fromIndex = c\<close>, a \<open>toIndex\<close> between \<open>0\<close> and \<open>N - 1\<close>, and \<open>moved\<close>
  is true exactly when the two indices differ.
\<close>

theorem C3_relative_move:
  assumes "safe_str (dict_get payload ''playlistId'') = playlist_id" and "playlist_id \<noteq> []"
    and "normalize_playlist_song_ref (dict_get payload ''song'') = Some song_ref"
    and "lower (safe_str (dict_get payload ''direction'')) = direction"
    and "direction = ''up'' \<or> direction = ''down''"
    and "safe_non_negative_int (dict_get payload ''positions'') = Some p" and "0 < p"
    and "get_playlist yt playlist_id 5000 (fst w) = (Inr snapshot, s1)"
    and "tracks_of snapshot = JList tracks" and "2 \<le> length tracks"
    and "locate_playlist_song_index tracks song_ref = (int c, tok)"
    and "\<forall>mi s. \<exists>r s'. edit_playlist yt playlist_id mi s = (Inr r, s')"
    and "k = length (passed_rows direction p c tracks)"
    and "to_index = (if direction = ''up'' then int c - int k else int c + int k)"
  shows "(\<exists>s'. handle_move_playlist_song yt payload w =
            (Inr (move_response playlist_id (to_index \<noteq> int c) (int c) to_index),
             (s', snd w @ GetPlaylist playlist_id 5000
                    # map (move_call playlist_id direction tok) (passed_rows direction p c tracks))))
       \<and> 0 \<le> to_index \<and> to_index \<le> int (length tracks) - 1
       \<and> k \<le> min p (headroom direction c tracks)
       \<and> ((\<forall>r\<in>set (take (min p (headroom direction c tracks)) (neighbours direction c tracks)).
              has_token r)
            \<longrightarrow> k = min p (headroom direction c tracks))"
proof -
  let ?w1 = "(s1, snd w @ [GetPlaylist playlist_id 5000])"
  let ?h = "headroom direction c tracks"
  have c: "c < length tracks" and tok: "tok \<noteq> []"
    using locate_found [OF assms(11)] by auto
  have kle: "k \<le> min p ?h"
    unfolding assms(13) by (rule passed_rows_length)
  have hle: "?h \<le> length tracks - 1" "direction = ''up'' \<longrightarrow> ?h = c"
    "direction \<noteq> ''up'' \<longrightarrow> c + ?h = length tracks - 1"
    using c by (auto simp: headroom_def)
  have range: "0 \<le> to_index \<and> to_index \<le> int (length tracks) - 1"
    using kle hle c unfolding assms(14) by auto
  have full: "(\<forall>r\<in>set (take (min p ?h) (neighbours direction c tracks)). has_token r)
      \<longrightarrow> k = min p ?h"
  proof
    assume "\<forall>r\<in>set (take (min p ?h) (neighbours direction c tracks)). has_token r"
    then have "passed_rows direction p c tracks = take (min p ?h) (neighbours direction c tracks)"
      unfolding passed_rows_def by (simp add: takeWhile_eq_all_conv)
    then show "k = min p ?h"
      unfolding assms(13) using neighbours_length [OF c, of direction] by simp
  qed
  have steps: "(if direction = ''up'' then min (int p) (int c)
                else min (int p) (int (length tracks) - 1 - int c)) = int (min p ?h)"
    using c by (auto simp: headroom_def min_def)
  have read: "handle_move_playlist_song yt payload w =
      (if int (min p ?h) \<le> 0 then (Inr (move_response playlist_id False (int c) (int c)), ?w1)
       else (case move_steps yt playlist_id direction tok (min p ?h) tracks (int c) ?w1 of
               (Inl f, w2) \<Rightarrow> (Inl f, w2)
             | (Inr (tracks', final_index), w2) \<Rightarrow>
                 (Inr (move_response playlist_id (final_index \<noteq> int c) (int c) final_index), w2)))"
    unfolding handle_move_read [OF assms(1-8)] assms(9) json.case assms(11) prod.case Let_def steps
    using assms(10) tok by (simp del: move_steps.simps(2))
  have run: "\<exists>s'. handle_move_playlist_song yt payload w =
            (Inr (move_response playlist_id (to_index \<noteq> int c) (int c) to_index),
             (s', snd w @ GetPlaylist playlist_id 5000
                    # map (move_call playlist_id direction tok) (passed_rows direction p c tracks)))"
  proof (cases "min p ?h = 0")
    case True
    then have pr: "passed_rows direction p c tracks = []"
      by (simp add: passed_rows_def)
    then have "k = 0" using assms(13) by simp
    then have ti: "to_index = int c" using assms(14) by simp
    show ?thesis
      unfolding read ti pr using True by simp
  next
    case False
    then have nz: "\<not> int (min p ?h) \<le> 0" by linarith
    have pos: "handle_move_playlist_song yt payload w =
       (case move_steps yt playlist_id direction tok (min p ?h) tracks (int c) ?w1 of
               (Inl f, w2) \<Rightarrow> (Inl f, w2)
             | (Inr (tracks', final_index), w2) \<Rightarrow>
                 (Inr (move_response playlist_id (final_index \<noteq> int c) (int c) final_index), w2))"
      unfolding read by (simp only: nz if_False)
    show ?thesis
    proof (cases "direction = ''up''")
      case True
      have n: "min p ?h \<le> c" using hle True by simp
      have pr: "passed_rows direction p c tracks =
          takeWhile has_token (take (min p ?h) (rev (take c tracks)))"
        using True by (simp add: passed_rows_def neighbours_def)
      from move_steps_up [OF assms(12) n c, of tok ?w1]
      obtain tracks' s' where ms:
        "move_steps yt playlist_id ''up'' tok (min p ?h) tracks (int c) ?w1 =
           (Inr (tracks', int (c - k)),
            (s', snd ?w1 @ map (\<lambda>r. EditPlaylist playlist_id tok (row_token r))
                             (passed_rows direction p c tracks)))"
        unfolding pr assms(13) by blast
      have mc: "map (move_call playlist_id direction tok) (passed_rows direction p c tracks) =
          map (\<lambda>r. EditPlaylist playlist_id tok (row_token r)) (passed_rows direction p c tracks)"
        using True by (simp add: move_call_def)
      have "k \<le> c" by (rule order_trans [OF kle n])
      then have ti: "to_index = int (c - k)"
        using True unfolding assms(14) by simp
      have ms': "move_steps yt playlist_id direction tok (min p ?h) tracks (int c) ?w1 =
           (Inr (tracks', int (c - k)),
            (s', snd ?w1 @ map (\<lambda>r. EditPlaylist playlist_id tok (row_token r))
                             (passed_rows direction p c tracks)))"
        using ms True by simp
      show ?thesis
        unfolding pos ti mc ms' by simp
    next
      case down: False
      have n: "min p ?h \<le> length tracks - 1 - c" using hle down by simp
      have pr: "passed_rows direction p c tracks =
          takeWhile has_token (take (min p ?h) (drop (Suc c) tracks))"
        using down by (simp add: passed_rows_def neighbours_def)
      from move_steps_down [OF assms(12) down n c, of tok ?w1]
      obtain tracks' s' where ms:
        "move_steps yt playlist_id direction tok (min p ?h) tracks (int c) ?w1 =
           (Inr (tracks', int (c + k)),
            (s', snd ?w1 @ map (\<lambda>r. EditPlaylist playlist_id (row_token r) tok)
                             (passed_rows direction p c tracks)))"
        unfolding pr assms(13) by blast
      have mc: "map (move_call playlist_id direction tok) (passed_rows direction p c tracks) =
          map (\<lambda>r. EditPlaylist playlist_id (row_token r) tok) (passed_rows direction p c tracks)"
        using down by (simp add: move_call_def)
      have ti: "to_index = int (c + k)"
        using down unfolding assms(14) by simp
      show ?thesis
        unfolding pos ti mc ms by simp
    qed
  qed
  show ?thesis using run range kle full by blast
qed

text \<open>
  A request for seven positions upwards from index 2 makes the two steps there is room
  for; and the example of the specification, one step upwards from index 1.
\<close>

theorem C3_relative_move_witness:
  "handle_move_playlist_song (steady (snapshot_of rows4)) (move_payload ''t3'' ''Up'' 7) ((), []) =
     (Inr (move_response ''PL'' True 2 0),
      ((), [GetPlaylist ''PL'' 5000, EditPlaylist ''PL'' ''t3'' ''t2'',
            EditPlaylist ''PL'' ''t3'' ''t1'']))"
proof -
  let ?yt = "steady (snapshot_of rows4)"
  let ?payload = "move_payload ''t3'' ''Up'' 7"
  have h1: "safe_str (dict_get ?payload ''playlistId'') = ''PL''" by code_simp
  have h2: "''PL'' \<noteq> []" by simp
  have h3: "normalize_playlist_song_ref (dict_get ?payload ''song'') = Some [(''setVideoId'', JStr ''t3'')]"
    by code_simp
  have h4: "lower (safe_str (dict_get ?payload ''direction'')) = ''up''" by code_simp
  have h5: "''up'' = ''up'' \<or> ''up'' = ''down''" by simp
  have h6: "safe_non_negative_int (dict_get ?payload ''positions'') = Some 7" by code_simp
  have h7: "(0::nat) < 7" by simp
  have h8: "get_playlist ?yt ''PL'' 5000 (fst ((), [])) = (Inr (snapshot_of rows4), ())"
    by (simp add: steady_def)
  have h9: "tracks_of (snapshot_of rows4) = JList rows4" by code_simp
  have h10: "2 \<le> length rows4" by (simp add: rows4_def)
  have "locate_playlist_song_index rows4 [(''setVideoId'', JStr ''t3'')] = (2, ''t3'')"
    by code_simp
  then have h11: "locate_playlist_song_index rows4 [(''setVideoId'', JStr ''t3'')] = (int 2, ''t3'')"
    by simp
  have h12: "\<forall>mi s. \<exists>r s'. edit_playlist ?yt ''PL'' mi s = (Inr r, s')"
    by (simp add: steady_def)
  have pr: "passed_rows ''up'' 7 2 rows4 = [row ''x'' ''t2'', row ''v'' ''t1'']" by code_simp
  have h13: "(2::nat) = length (passed_rows ''up'' 7 2 rows4)" by (simp add: pr)
  have h14: "(0::int) = (if ''up'' = ''up'' then int 2 - int 2 else int 2 + int 2)" by simp
  have calls: "map (move_call ''PL'' ''up'' ''t3'') [row ''x'' ''t2'', row ''v'' ''t1''] =
      [EditPlaylist ''PL'' ''t3'' ''t2'', EditPlaylist ''PL'' ''t3'' ''t1'']" by code_simp
  from C3_relative_move [OF h1 h2 h3 h4 h5 h6 h7 h8 h9 h10 h11 h12 h13 h14]
  have "\<exists>s'. handle_move_playlist_song ?yt ?payload ((), []) =
      (Inr (move_response ''PL'' (0 \<noteq> int 2) (int 2) 0),
       (s', snd ((), []) @ GetPlaylist ''PL'' 5000
              # map (move_call ''PL'' ''up'' ''t3'') (passed_rows ''up'' 7 2 rows4)))"
    by blast
  then show ?thesis unfolding pr calls by simp
qed

lemma move_up_one_example:
  "handle_move_playlist_song (steady (snapshot_of rows4)) (move_payload ''t2'' ''up'' 1) ((), []) =
     (Inr (move_response ''PL'' True 1 0),
      ((), [GetPlaylist ''PL'' 5000, EditPlaylist ''PL'' ''t2'' ''t1'']))"
  by code_simp

text \<open>
  Claim C7, with the small snapshots as the code treats them. When the snapshot has at
  least two rows and no row is the referenced one (none has its position token, and none
  with a token has its external identifier), the move ends with the error
  \<open>playlist_song_not_found\<close>. When the snapshot has fewer than two rows, the handler
  answers \<open>moved: false\<close> with both indices \<open>0\<close> before it looks for the row.
\<close>

theorem C7_move_not_found:
  assumes "safe_str (dict_get payload ''playlistId'') = playlist_id" and "playlist_id \<noteq> []"
    and "normalize_playlist_song_ref (dict_get payload ''song'') = Some song_ref"
    and "lower (safe_str (dict_get payload ''direction'')) = direction"
    and "direction = ''up'' \<or> direction = ''down''"
    and "safe_non_negative_int (dict_get payload ''positions'') = Some p" and "0 < p"
    and "get_playlist yt playlist_id 5000 (fst w) = (Inr snapshot, s1)"
    and "tracks_of snapshot = JList tracks"
    and "\<forall>r\<in>set tracks. \<not> matches_ref song_ref r"
  shows "(2 \<le> length tracks \<longrightarrow>
            handle_move_playlist_song yt payload w =
              (Inl (emit_error ''Could not find selected song in playlist.''
                      ''playlist_song_not_found'' 404 []),
               (s1, snd w @ [GetPlaylist playlist_id 5000])))
       \<and> (length tracks < 2 \<longrightarrow>
            handle_move_playlist_song yt payload w =
              (Inr (move_response playlist_id False 0 0),
               (s1, snd w @ [GetPlaylist playlist_id 5000])))"
  unfolding handle_move_read [OF assms(1-8)] assms(9) json.case
    locate_not_found [OF assms(10)] song_not_found_def
  by simp

theorem C7_move_not_found_witness:
  "handle_move_playlist_song (steady (snapshot_of rows4)) (move_payload ''t9'' ''up'' 1) ((), []) =
     (Inl (emit_error ''Could not find selected song in playlist.''
             ''playlist_song_not_found'' 404 []),
      ((), [GetPlaylist ''PL'' 5000]))"
proof -
  let ?yt = "steady (snapshot_of rows4)"
  let ?payload = "move_payload ''t9'' ''up'' 1"
  have h1: "safe_str (dict_get ?payload ''playlistId'') = ''PL''" by code_simp
  have h2: "''PL'' \<noteq> []" by simp
  have h3: "normalize_playlist_song_ref (dict_get ?payload ''song'') = Some [(''setVideoId'', JStr ''t9'')]"
    by code_simp
  have h4: "lower (safe_str (dict_get ?payload ''direction'')) = ''up''" by code_simp
  have h5: "''up'' = ''up'' \<or> ''up'' = ''down''" by simp
  have h6: "safe_non_negative_int (dict_get ?payload ''positions'') = Some 1" by code_simp
  have h7: "(0::nat) < 1" by simp
  have h8: "get_playlist ?yt ''PL'' 5000 (fst ((), [])) = (Inr (snapshot_of rows4), ())"
    by (simp add: steady_def)
  have h9: "tracks_of (snapshot_of rows4) = JList rows4" by code_simp
  have "list_all (\<lambda>r. \<not> matches_ref [(''setVideoId'', JStr ''t9'')] r) rows4" by code_simp
  then have h10: "\<forall>r\<in>set rows4. \<not> matches_ref [(''setVideoId'', JStr ''t9'')] r"
    by (simp add: list_all_iff)
  have len: "2 \<le> length rows4" by (simp add: rows4_def)
  show ?thesis
    using C7_move_not_found [OF h1 h2 h3 h4 h5 h6 h7 h8 h9 h10] len by simp
qed

text \<open>
  A snapshot of one row and a reference to a row that is not there: the answer is the
  successful no-op, not the error.
\<close>

theorem C7_small_snapshot_counterexample:
  "\<not> matches_ref [(''setVideoId'', JStr ''t9'')] (row ''v'' ''t1'')
   \<and> locate_playlist_song_index [row ''v'' ''t1''] [(''setVideoId'', JStr ''t9'')] = (- 1, [])
   \<and> handle_move_playlist_song (steady (snapshot_of [row ''v'' ''t1'']))
        (move_payload ''t9'' ''up'' 1) ((), []) =
       (Inr (move_response ''PL'' False 0 0), ((), [GetPlaylist ''PL'' 5000]))"
  by code_simp


section \<open>Reading a snapshot whose rows are missing\<close>







section \<open>Scoring and selecting search results\<close>

lemma score_cand_a: "score_search_result cand_a ''Bohemian Rhapsody'' ''Queen'' = 15"
  by code_simp

lemma score_cand_b: "score_search_result cand_b ''Bohemian Rhapsody'' ''Queen'' = 12"
  by code_simp

lemma score_cand_a_title: "score_search_result cand_a ''Bohemian Rhapsody'' [] = 8 + 2"
  by code_simp

lemma score_cand_b_title: "score_search_result cand_b ''Bohemian Rhapsody'' [] = 5 + 2"
  by code_simp

lemma score_cand_a_artist: "score_search_result cand_a [] ''Queen'' = 5 + 2"
  by code_simp

lemma score_cand_b_artist: "score_search_result cand_b [] ''Queen'' = 5 + 2"
  by code_simp

lemma score_cand_a_listed: "score_search_result cand_a_listed ''Bohemian Rhapsody'' ''Queen'' = 15"
  by code_simp

lemma score_cand_b_listed: "score_search_result cand_b_listed ''Bohemian Rhapsody'' ''Queen'' = 12"
  by code_simp

lemma album_level_none: "album_match_level item [] = 0"
proof -
  have "normalize [] = []" by code_simp
  then show ?thesis by (simp add: album_match_level_def)
qed

lemma level_cands:
  "artist_match_level cand_a ''Queen'' = 3" "artist_match_level cand_b ''Queen'' = 3"
  "artist_match_level cand_a_listed ''Queen'' = 3" "artist_match_level cand_b_listed ''Queen'' = 3"
  by code_simp+

lemma valid_cands:
  "valid_results_of [JDict cand_a, JDict cand_b] = [cand_a, cand_b]"
  "valid_results_of [JDict cand_b, JDict cand_a] = [cand_b, cand_a]"
  "valid_results_of [JDict cand_a_listed, JDict cand_b_listed] = [cand_a_listed, cand_b_listed]"
  by code_simp+

text \<open>
  Claim C4. For the target with the title \<^verbatim>\<open>Bohemian Rhapsody\<close>, the artist \<^verbatim>\<open>Queen\<close>
  and no album, the candidate A (same title, same artist, identifier \<open>abc\<close>) scores 15,
  which is 8 for the equal normalised title, 5 for the equal artist and 2 for the
  identifier, and the candidate B (title with \<^verbatim>\<open>(Remastered)\<close>, identifier \<open>def\<close>)
  scores 12, which is 5 for the title that contains the target, 5 and 2. The selector
  returns A, in either order of the two candidates and in either shape of the artist.
\<close>

theorem C4_scoring_example:
  "score_search_result cand_a ''Bohemian Rhapsody'' ''Queen'' = 15
   \<and> score_search_result cand_b ''Bohemian Rhapsody'' ''Queen'' = 12
   \<and> score_search_result cand_a ''Bohemian Rhapsody'' [] = 8 + 2
   \<and> score_search_result cand_b ''Bohemian Rhapsody'' [] = 5 + 2
   \<and> score_search_result cand_a [] ''Queen'' = 5 + 2
   \<and> score_search_result cand_b [] ''Queen'' = 5 + 2
   \<and> total_score ''Bohemian Rhapsody'' ''Queen'' [] cand_a = 15
   \<and> total_score ''Bohemian Rhapsody'' ''Queen'' [] cand_b = 12
   \<and> pick_best_match [JDict cand_a, JDict cand_b] ''Bohemian Rhapsody'' ''Queen'' [] True = Some cand_a
   \<and> pick_best_match [JDict cand_b, JDict cand_a] ''Bohemian Rhapsody'' ''Queen'' [] True = Some cand_a
   \<and> score_search_result cand_a_listed ''Bohemian Rhapsody'' ''Queen'' = 15
   \<and> score_search_result cand_b_listed ''Bohemian Rhapsody'' ''Queen'' = 12
   \<and> pick_best_match [JDict cand_a_listed, JDict cand_b_listed] ''Bohemian Rhapsody'' ''Queen'' [] True
       = Some cand_a_listed"
  by (simp add: score_cand_a score_cand_b score_cand_a_title score_cand_b_title
      score_cand_a_artist score_cand_b_artist score_cand_a_listed score_cand_b_listed
      total_score_def album_level_none pick_best_match_def valid_cands level_cands py_max_by_def)

lemma fold_max_by:
  fixes key :: "'a \<Rightarrow> int"
  shows "fold (\<lambda>y best. if key best < key y then y else best) rest x \<in> set (x # rest)
   \<and> (\<forall>y\<in>set (x # rest). key y \<le> key (fold (\<lambda>y best. if key best < key y then y else best) rest x))"
proof (induction rest arbitrary: x)
  case Nil
  then show ?case by simp
next
  case (Cons z rest)
  let ?x' = "if key x < key z then z else x"
  have "fold (\<lambda>y best. if key best < key y then y else best) (z # rest) x =
        fold (\<lambda>y best. if key best < key y then y else best) rest ?x'"
    by simp
  moreover from Cons.IH [of ?x']
  have "fold (\<lambda>y best. if key best < key y then y else best) rest ?x' \<in> set (?x' # rest)
      \<and> (\<forall>y\<in>set (?x' # rest). key y \<le> key (fold (\<lambda>y best. if key best < key y then y else best) rest ?x'))" .
  ultimately show ?case by (auto split: if_splits)
qed

lemma py_max_by_Some:
  assumes "xs \<noteq> []"
  shows "\<exists>x\<in>set xs. py_max_by key xs = Some x \<and> (\<forall>y\<in>set xs. key y \<le> key x)"
proof -
  obtain x rest where xs: "xs = x # rest" using assms by (cases xs) auto
  show ?thesis
    using fold_max_by [of key rest x] unfolding xs py_max_by_def by simp
qed

lemma set_valid_results_of:
  "set (valid_results_of results) =
     {d. JDict d \<in> set results \<and> safe_str (dict_get d ''videoId'') \<noteq> []}"
proof (induction results)
  case Nil
  then show ?case by (simp add: valid_results_of_def)
next
  case (Cons r rs)
  then show ?case
    by (cases r) (auto simp: valid_results_of_def)
qed

lemma is_prefix_iff: "is_prefix a b \<longleftrightarrow> (\<exists>s. b = a @ s)"
  by (induction a b rule: is_prefix.induct) auto

lemma str_in_iff: "str_in a b \<longleftrightarrow> (\<exists>p s. b = p @ a @ s)"
proof (induction b)
  case Nil
  then show ?case by simp
next
  case (Cons y b)
  have "(\<exists>p s. y # b = p @ a @ s) \<longleftrightarrow> (\<exists>s. y # b = a @ s) \<or> (\<exists>p s. b = p @ a @ s)"
  proof
    assume "\<exists>p s. y # b = p @ a @ s"
    then obtain p s where e: "y # b = p @ a @ s" by blast
    show "(\<exists>s. y # b = a @ s) \<or> (\<exists>p s. b = p @ a @ s)"
    proof (cases p)
      case Nil
      then show ?thesis using e by auto
    next
      case (Cons z p')
      then have "b = p' @ a @ s" using e by simp
      then show ?thesis by blast
    qed
  next
    assume "(\<exists>s. y # b = a @ s) \<or> (\<exists>p s. b = p @ a @ s)"
    then show "\<exists>p s. y # b = p @ a @ s"
    proof
      assume "\<exists>s. y # b = a @ s"
      then obtain s where "y # b = [] @ a @ s" by auto
      then show ?thesis by blast
    next
      assume "\<exists>p s. b = p @ a @ s"
      then obtain p s where "y # b = (y # p) @ a @ s" by auto
      then show ?thesis by blast
    qed
  qed
  then show ?case using Cons.IH by (simp add: is_prefix_iff del: is_prefix.simps)
qed

lemma any_token_in_iff:
  "any_token_in artist result_artists \<longleftrightarrow>
     (\<exists>token\<in>set (split_on CHR '' '' artist). token \<noteq> [] \<and> (\<exists>p s. result_artists = p @ token @ s))"
  by (simp add: any_token_in_def list_ex_iff str_in_iff)

lemma artist_match_level_characterised:
  "artist_match_level r artist =
     (if normalize artist = [] \<or> normalize (extract_artist_text r) = [] then 0
      else if normalize (extract_artist_text r) = normalize artist then 3
      else if (\<exists>p s. normalize (extract_artist_text r) = p @ normalize artist @ s) then 2
      else if (\<exists>token\<in>set (split_on CHR '' '' (normalize artist)).
                 token \<noteq> [] \<and> (\<exists>p s. normalize (extract_artist_text r) = p @ token @ s)) then 1
      else 0)"
  unfolding artist_match_level_def Let_def str_in_iff any_token_in_iff by simp

lemma artist_match_level_positive:
  "0 < artist_match_level r artist \<longleftrightarrow>
     normalize artist \<noteq> [] \<and> normalize (extract_artist_text r) \<noteq> []
     \<and> (normalize (extract_artist_text r) = normalize artist
        \<or> (\<exists>p s. normalize (extract_artist_text r) = p @ normalize artist @ s)
        \<or> (\<exists>token\<in>set (split_on CHR '' '' (normalize artist)).
              token \<noteq> [] \<and> (\<exists>p s. normalize (extract_artist_text r) = p @ token @ s)))"
  unfolding artist_match_level_characterised by simp

text \<open>
  Claim C5. The artist match level of a candidate is 3 when its normalised artist text
  equals the normalised target artist, 2 when it contains it, 1 when it contains one of
  the non-empty pieces that the spaces cut the normalised target into, and 0 otherwise
  (also when either text normalises to nothing). For a non-empty target artist, with
  \<open>valid\<close> the candidates that are objects with a usable external identifier and
  \<open>matching\<close> those of them whose level is above 0: when \<open>matching\<close> is empty, the
  selection that requires an artist match returns no match, whatever the titles score,
  and the selection that does not require it returns a candidate of \<open>valid\<close> with the
  greatest total score (no match when \<open>valid\<close> is empty); when \<open>matching\<close> is not
  empty, both selections return a candidate of \<open>matching\<close> with the greatest total
  score among \<open>matching\<close>.
\<close>

theorem C5_artist_filter:
  assumes "artist \<noteq> []"
    and "valid = valid_results_of results"
    and "matching = filter (\<lambda>r. 0 < artist_match_level r artist) valid"
  shows "set valid = {d. JDict d \<in> set results \<and> safe_str (dict_get d ''videoId'') \<noteq> []}
       \<and> (\<forall>r. artist_match_level r artist =
             (if normalize artist = [] \<or> normalize (extract_artist_text r) = [] then 0
              else if normalize (extract_artist_text r) = normalize artist then 3
              else if (\<exists>p s. normalize (extract_artist_text r) = p @ normalize artist @ s) then 2
              else if (\<exists>token\<in>set (split_on CHR '' '' (normalize artist)).
                         token \<noteq> [] \<and> (\<exists>p s. normalize (extract_artist_text r) = p @ token @ s))
                   then 1
              else 0))
       \<and> set matching =
            {r \<in> set valid.
               normalize artist \<noteq> [] \<and> normalize (extract_artist_text r) \<noteq> []
               \<and> (normalize (extract_artist_text r) = normalize artist
                  \<or> (\<exists>p s. normalize (extract_artist_text r) = p @ normalize artist @ s)
                  \<or> (\<exists>token\<in>set (split_on CHR '' '' (normalize artist)).
                        token \<noteq> [] \<and> (\<exists>p s. normalize (extract_artist_text r) = p @ token @ s)))}
       \<and> (matching = [] \<longrightarrow>
            pick_best_match results title artist album True = None
            \<and> (valid = [] \<longrightarrow> pick_best_match results title artist album False = None)
            \<and> (valid \<noteq> [] \<longrightarrow>
                 (\<exists>x\<in>set valid. pick_best_match results title artist album False = Some x
                    \<and> (\<forall>y\<in>set valid. total_score title artist album y
                                        \<le> total_score title artist album x))))
       \<and> (matching \<noteq> [] \<longrightarrow>
            (\<forall>flag. \<exists>x\<in>set matching. pick_best_match results title artist album flag = Some x
                    \<and> (\<forall>y\<in>set matching. total_score title artist album y
                                           \<le> total_score title artist album x)))"
proof (intro conjI impI allI)
  show "set valid = {d. JDict d \<in> set results \<and> safe_str (dict_get d ''videoId'') \<noteq> []}"
    unfolding assms(2) by (rule set_valid_results_of)
next
  fix r
  show "artist_match_level r artist =
             (if normalize artist = [] \<or> normalize (extract_artist_text r) = [] then 0
              else if normalize (extract_artist_text r) = normalize artist then 3
              else if (\<exists>p s. normalize (extract_artist_text r) = p @ normalize artist @ s) then 2
              else if (\<exists>token\<in>set (split_on CHR '' '' (normalize artist)).
                         token \<noteq> [] \<and> (\<exists>p s. normalize (extract_artist_text r) = p @ token @ s))
                   then 1
              else 0)"
    by (rule artist_match_level_characterised)
next
  show "set matching =
            {r \<in> set valid.
               normalize artist \<noteq> [] \<and> normalize (extract_artist_text r) \<noteq> []
               \<and> (normalize (extract_artist_text r) = normalize artist
                  \<or> (\<exists>p s. normalize (extract_artist_text r) = p @ normalize artist @ s)
                  \<or> (\<exists>token\<in>set (split_on CHR '' '' (normalize artist)).
                        token \<noteq> [] \<and> (\<exists>p s. normalize (extract_artist_text r) = p @ token @ s)))}"
    unfolding assms(3) set_filter artist_match_level_positive ..
next
  assume m: "matching = []"
  show "pick_best_match results title artist album True = None"
    using m assms by (simp add: pick_best_match_def Let_def)
next
  assume "matching = []" and "valid = []"
  then show "pick_best_match results title artist album False = None"
    using assms by (simp add: pick_best_match_def Let_def)
next
  assume m: "matching = []" and v: "valid \<noteq> []"
  have "pick_best_match results title artist album False =
      py_max_by (total_score title artist album) valid"
    using m v assms by (simp add: pick_best_match_def Let_def)
  then show "\<exists>x\<in>set valid. pick_best_match results title artist album False = Some x
      \<and> (\<forall>y\<in>set valid. total_score title artist album y \<le> total_score title artist album x)"
    using py_max_by_Some [OF v, of "total_score title artist album"] by simp
next
  fix flag
  assume m: "matching \<noteq> []"
  then have v: "valid \<noteq> []" using assms(3) by auto
  have "pick_best_match results title artist album flag =
      py_max_by (total_score title artist album) matching"
    using m v assms by (simp add: pick_best_match_def Let_def)
  then show "\<exists>x\<in>set matching. pick_best_match results title artist album flag = Some x
      \<and> (\<forall>y\<in>set matching. total_score title artist album y \<le> total_score title artist album x)"
    using py_max_by_Some [OF m, of "total_score title artist album"] by simp
qed

text \<open>
  The four levels on examples. With the target artist \<^verbatim>\<open>Queen\<close>, the cover by another
  artist scores 10 and the other title by the target artist 7: both selections return the
  latter. With the target artist \<^verbatim>\<open>Abba\<close> neither candidate matches: requiring the
  artist gives no match although the title of A scores 8 + 2; not requiring it gives a
  candidate.
\<close>

lemma level_examples:
  "artist_match_level cand_a ''Queen'' = 3"
  "artist_match_level cand_duet ''Queen'' = 2"
  "artist_match_level cand_a ''Queen Adam Lambert'' = 1"
  "artist_match_level cand_a ''Abba'' = 0"
  "artist_match_level cand_cover ''Queen'' = 0"
  "artist_match_level cand_live ''Queen'' = 3"
  by code_simp+

lemma cover_scores_higher:
  "total_score ''Bohemian Rhapsody'' ''Queen'' [] cand_cover = 10"
  "total_score ''Bohemian Rhapsody'' ''Queen'' [] cand_live = 7"
  by code_simp+

theorem C5_artist_filter_witness:
  "pick_best_match [JDict cand_cover, JDict cand_live] ''Bohemian Rhapsody'' ''Queen'' [] True
     = Some cand_live
   \<and> pick_best_match [JDict cand_cover, JDict cand_live] ''Bohemian Rhapsody'' ''Queen'' [] False
     = Some cand_live
   \<and> total_score ''Bohemian Rhapsody'' ''Queen'' [] cand_cover = 10
   \<and> total_score ''Bohemian Rhapsody'' ''Queen'' [] cand_live = 7
   \<and> artist_match_level cand_a ''Queen'' = 3
   \<and> artist_match_level cand_duet ''Queen'' = 2
   \<and> artist_match_level cand_a ''Queen Adam Lambert'' = 1
   \<and> artist_match_level cand_a ''Abba'' = 0
   \<and> pick_best_match [JDict cand_a, JDict cand_b] ''Bohemian Rhapsody'' ''Abba'' [] True = None
   \<and> total_score ''Bohemian Rhapsody'' ''Abba'' [] cand_a = 10
   \<and> (\<exists>x\<in>set [cand_a, cand_b].
         pick_best_match [JDict cand_a, JDict cand_b] ''Bohemian Rhapsody'' ''Abba'' [] False = Some x)"
proof -
  have h1: "''Queen'' \<noteq> []" by simp
  have h2: "[cand_cover, cand_live] = valid_results_of [JDict cand_cover, JDict cand_live]"
    by code_simp
  have h3: "[cand_live] = filter (\<lambda>r. 0 < artist_match_level r ''Queen'') [cand_cover, cand_live]"
    by (simp add: level_examples)
  have both: "\<forall>flag. \<exists>x\<in>set [cand_live].
      pick_best_match [JDict cand_cover, JDict cand_live] ''Bohemian Rhapsody'' ''Queen'' [] flag = Some x
      \<and> (\<forall>y\<in>set [cand_live]. total_score ''Bohemian Rhapsody'' ''Queen'' [] y
                                \<le> total_score ''Bohemian Rhapsody'' ''Queen'' [] x)"
    using C5_artist_filter [OF h1 h2 h3, of "''Bohemian Rhapsody''" "[]"] by blast
  have q: "pick_best_match [JDict cand_cover, JDict cand_live] ''Bohemian Rhapsody'' ''Queen'' [] True
             = Some cand_live
      \<and> pick_best_match [JDict cand_cover, JDict cand_live] ''Bohemian Rhapsody'' ''Queen'' [] False
             = Some cand_live"
    using both by simp
  have g1: "''Abba'' \<noteq> []" by simp
  have g2: "[cand_a, cand_b] = valid_results_of [JDict cand_a, JDict cand_b]" by code_simp
  have lb: "artist_match_level cand_b ''Abba'' = 0" by code_simp
  have g3: "[] = filter (\<lambda>r. 0 < artist_match_level r ''Abba'') [cand_a, cand_b]"
    by (simp add: level_examples lb)
  have sc: "total_score ''Bohemian Rhapsody'' ''Abba'' [] cand_a = 10" by code_simp
  have a: "pick_best_match [JDict cand_a, JDict cand_b] ''Bohemian Rhapsody'' ''Abba'' [] True = None
      \<and> (\<exists>x\<in>set [cand_a, cand_b].
         pick_best_match [JDict cand_a, JDict cand_b] ''Bohemian Rhapsody'' ''Abba'' [] False = Some x)"
    using C5_artist_filter [OF g1 g2 g3, of "''Bohemian Rhapsody''" "[]"] by auto
  show ?thesis
    using q a sc level_examples(1-4) cover_scores_higher by simp
qed


section \<open>The migration batch\<close>

lemma failed_key_entry [simp]:
  "failed_key (failed_entry k title artist album err) = k"
  by (simp add: failed_key_def failed_entry_def dict_get_def)

lemma conclude_match_key:
  "outcome_key (conclude_match s key title artist album best) = key"
  by (simp add: conclude_match_def outcome_key_def Let_def split: option.splits)

lemma resolve_song_no_title:
  assumes "safe_str (dict_get s ''title'') = []"
  shows "resolve_song yt dbg index (JDict s) w =
     ((Failed (failed_entry (song_key_for s index) [] (safe_str (dict_get s ''artist''))
                 (safe_str (dict_get s ''album'')) ''Song title is required.''), []), w)"
  by (simp add: resolve_song_def assms)

lemma resolve_song_key:
  "outcome_key (fst (fst (resolve_song yt dbg index song w))) = song_key_of index song"
proof (cases song)
  case (JDict s)
  let ?key = "song_key_for s index"
  let ?title = "safe_str (dict_get s ''title'')"
  let ?artist = "safe_str (dict_get s ''artist'')"
  let ?album = "safe_str (dict_get s ''album'')"
  let ?query = "strip (?artist @ '' '' @ ?title)"
  let ?queries = "?query # (if ?album \<noteq> [] then [strip (?artist @ '' '' @ ?title @ '' '' @ ?album)] else [])"
  have sk: "song_key_of index song = ?key" by (simp add: song_key_of_def JDict)
  show ?thesis
  proof (cases "?title = []")
    case True
    show ?thesis
      unfolding JDict resolve_song_no_title [OF True] sk [unfolded JDict]
      by (simp add: outcome_key_def)
  next
    case False
    obtain r merged seen w1 where
      sv: "search_variants yt ''songs'' ?queries ([], {}) w = ((r, merged, seen), w1)"
      by (metis prod.exhaust)
    show ?thesis
    proof (cases r)
      case (Some exc)
      have "resolve_song yt dbg index (JDict s) w =
          ((Failed (failed_entry ?key ?title ?artist ?album (''Search failed: '' @ exc)),
            (if dbg then [debug_entry ?key ?title ?artist ?album ?query ?queries ''error'' (JStr exc)]
             else [])), w1)"
        unfolding resolve_song_def json.case Let_def if_not_P [OF False] sv Some
          prod.case option.case
        by (rule refl)
      then show ?thesis
        unfolding JDict sk [unfolded JDict] by (simp add: outcome_key_def)
    next
      case None
      obtain bm dbg2 w2 where
        fb: "fallback_search yt dbg (debug_entry ?key ?title ?artist ?album ?query ?queries)
               ?queries ?title ?artist ?album
               (pick_best_match merged ?title ?artist ?album True) w1 = ((bm, dbg2), w2)"
        by (metis prod.exhaust)
      have "resolve_song yt dbg index (JDict s) w =
          ((conclude_match s ?key ?title ?artist ?album bm,
            (if dbg then [debug_entry ?key ?title ?artist ?album ?query ?queries ''response''
                            (JList merged)] else []) @ dbg2), w2)"
        unfolding resolve_song_def json.case Let_def if_not_P [OF False] sv None
          prod.case option.case fb
        by (rule refl)
      then show ?thesis
        unfolding JDict sk [unfolded JDict] by (simp add: conclude_match_key)
    qed
  qed
qed (simp_all add: resolve_song_def song_key_of_def outcome_key_def failed_key_def dict_get_def)

lemma resolve_all_keys:
  "resolve_all yt dbg items b w = (b', w') \<Longrightarrow>
   outcome_keys (pending_migrations b', failed b') =
     outcome_keys (pending_migrations b, failed b)
       + mset (map (\<lambda>p. song_key_of (fst p) (snd p)) items)
   \<and> length (pending_migrations b') + length (failed b') =
       length (pending_migrations b) + length (failed b) + length items"
proof (induction items arbitrary: b w)
  case Nil
  then show ?case by simp
next
  case (Cons item rest)
  obtain index song where item: "item = (index, song)" by (cases item)
  obtain out d w1 where rs: "resolve_song yt dbg index song w = ((out, d), w1)"
    by (metis prod.exhaust)
  have key: "outcome_key out = song_key_of index song"
    using resolve_song_key [of yt dbg index song w] rs by simp
  show ?case
  proof (cases out)
    case (Failed entry)
    let ?b1 = "b\<lparr>failed := failed b @ [entry], debug_searches := debug_searches b @ d\<rparr>"
    have "resolve_all yt dbg rest ?b1 w1 = (b', w')"
      using Cons.prems rs Failed item by simp
    from Cons.IH [OF this] show ?thesis
      using key Failed item by (simp add: outcome_keys_def outcome_key_def)
  next
    case (Pending p)
    let ?b1 = "b\<lparr>pending_migrations := pending_migrations b @ [p],
                   debug_searches := debug_searches b @ d\<rparr>"
    have "resolve_all yt dbg rest ?b1 w1 = (b', w')"
      using Cons.prems rs Pending item by simp
    from Cons.IH [OF this] show ?thesis
      using key Pending item by (simp add: outcome_keys_def outcome_key_def)
  qed
qed

lemma call_add_ok:
  assumes "\<forall>ids s. \<exists>r s'. add_playlist_items yt playlist_id ids False s = (Inr r, s')"
  shows "\<exists>r w'. call_add_playlist_items yt playlist_id ids False w = (Inr r, w')"
proof -
  from assms obtain r s' where "add_playlist_items yt playlist_id ids False (fst w) = (Inr r, s')"
    by blast
  then show ?thesis by (simp add: call_add_playlist_items_def)
qed

lemma call_add_raises:
  assumes "\<forall>ids s. \<exists>exc s'. add_playlist_items yt playlist_id ids False s = (Inl exc, s')"
  shows "\<exists>exc w'. call_add_playlist_items yt playlist_id ids False w = (Inl exc, w')"
proof -
  from assms obtain exc s' where "add_playlist_items yt playlist_id ids False (fst w) = (Inl exc, s')"
    by blast
  then show ?thesis by (simp add: call_add_playlist_items_def)
qed

lemma add_preserving_cases:
  "\<exists>w'. add_preserving yt playlist_id song acc w = ((fst acc @ [song], snd acc), w')
     \<or> (\<exists>exc. add_preserving yt playlist_id song acc w =
           ((fst acc, snd acc @ [failed_entry (p_song_key song) (p_title song) (p_artist song)
                                    (p_album song) (''Failed to add song to playlist: '' @ exc)]), w'))"
  unfolding add_preserving_def
  by (auto split: prod.splits sum.splits option.splits)

lemma add_preserving_ok:
  assumes "\<forall>ids s. \<exists>r s'. add_playlist_items yt playlist_id ids False s = (Inr r, s')"
  shows "\<exists>w'. add_preserving yt playlist_id song acc w = ((fst acc @ [song], snd acc), w')"
proof -
  obtain g0 w1 where g: "call_get_playlist yt playlist_id 5000 w = (g0, w1)"
    by (cases "call_get_playlist yt playlist_id 5000 w") auto
  obtain r w2 where a: "call_add_playlist_items yt playlist_id [p_video_id song] False w1 = (Inr r, w2)"
    using call_add_ok [OF assms] by blast
  show ?thesis
    unfolding add_preserving_def g
    by (cases g0; cases "safe_non_negative_int (expected_index_json (p_expected_index song))")
       (simp_all add: a)
qed

lemma failed_keys_of_pending:
  "map failed_key (map (\<lambda>song. failed_entry (p_song_key song) (p_title song) (p_artist song)
                                  (p_album song) err) pending) = map p_song_key pending"
  by (induction pending) simp_all

lemma add_all_preserving_keys:
  "add_all_preserving yt playlist_id pending acc w = (res, w') \<Longrightarrow>
   outcome_keys res = outcome_keys acc + mset (map p_song_key pending)
   \<and> length (fst res) + length (snd res) = length (fst acc) + length (snd acc) + length pending"
proof (induction pending arbitrary: acc w)
  case Nil
  then show ?case by simp
next
  case (Cons song rest)
  obtain acc1 w1 where st: "add_preserving yt playlist_id song acc w = (acc1, w1)"
    by (metis prod.exhaust)
  have step: "outcome_keys acc1 = outcome_keys acc + {#p_song_key song#}
      \<and> length (fst acc1) + length (snd acc1) = Suc (length (fst acc) + length (snd acc))"
    using add_preserving_cases [of yt playlist_id song acc w] st
    by (auto simp: outcome_keys_def)
  have "add_all_preserving yt playlist_id rest acc1 w1 = (res, w')"
    using Cons.prems st by simp
  from Cons.IH [OF this] show ?case using step by simp
qed

lemma add_all_preserving_ok:
  assumes "\<forall>ids s. \<exists>r s'. add_playlist_items yt playlist_id ids False s = (Inr r, s')"
  shows "\<exists>w'. add_all_preserving yt playlist_id pending acc w = ((fst acc @ pending, snd acc), w')"
proof (induction pending arbitrary: acc w)
  case Nil
  then show ?case by simp
next
  case (Cons song rest)
  obtain w1 where st: "add_preserving yt playlist_id song acc w = ((fst acc @ [song], snd acc), w1)"
    using add_preserving_ok [OF assms] by blast
  from Cons.IH [of "(fst acc @ [song], snd acc)" w1]
  show ?case using st by simp
qed

lemma add_pending_keys:
  "add_pending yt playlist_id preserve pending failed0 w = (res, w') \<Longrightarrow>
   outcome_keys res = outcome_keys (pending, failed0)
   \<and> length (fst res) + length (snd res) = length pending + length failed0"
proof (cases "pending = []")
  case True
  assume "add_pending yt playlist_id preserve pending failed0 w = (res, w')"
  then show ?thesis using True by (auto simp: add_pending_def outcome_keys_def)
next
  case False
  assume r: "add_pending yt playlist_id preserve pending failed0 w = (res, w')"
  show ?thesis
  proof (cases preserve)
    case True
    then have "add_all_preserving yt playlist_id pending ([], failed0) w = (res, w')"
      using r False by (simp add: add_pending_def)
    from add_all_preserving_keys [OF this] show ?thesis
      by (simp add: outcome_keys_def)
  next
    case no: False
    obtain a w1 where c: "call_add_playlist_items yt playlist_id (map p_video_id pending) False w = (a, w1)"
      by (metis prod.exhaust)
    show ?thesis
    proof (cases a)
      case (Inl exc)
      then have "res = ([], failed0 @ map (\<lambda>song. failed_entry (p_song_key song) (p_title song)
                      (p_artist song) (p_album song)
                      (''Failed to add songs to playlist: '' @ exc)) pending)"
        using r False no c by (simp add: add_pending_def)
      then show ?thesis
        unfolding outcome_keys_def
        by (simp only: fst_conv snd_conv map_append mset_append failed_keys_of_pending
              list.map mset.simps length_append length_map) simp
    next
      case (Inr v)
      then have "res = (pending, failed0)"
        using r False no c by (simp add: add_pending_def)
      then show ?thesis by (simp add: outcome_keys_def)
    qed
  qed
qed

lemma add_pending_bulk_fails:
  assumes "\<forall>ids s. \<exists>exc s'. add_playlist_items yt playlist_id ids False s = (Inl exc, s')"
    and "add_pending yt playlist_id False pending failed0 w = (res, w')"
  shows "fst res = [] \<and> length (snd res) = length pending + length failed0"
proof (cases "pending = []")
  case True
  then show ?thesis using assms(2) by (auto simp: add_pending_def)
next
  case False
  obtain exc w1 where "call_add_playlist_items yt playlist_id (map p_video_id pending) False w = (Inl exc, w1)"
    using call_add_raises [OF assms(1)] by blast
  then show ?thesis using assms(2) False by (auto simp: add_pending_def)
qed

lemma add_pending_ok:
  assumes "\<forall>ids s. \<exists>r s'. add_playlist_items yt playlist_id ids False s = (Inr r, s')"
  shows "\<exists>w'. add_pending yt playlist_id preserve pending failed0 w = ((pending, failed0), w')"
proof (cases "pending = []")
  case True
  then show ?thesis by (simp add: add_pending_def)
next
  case False
  show ?thesis
  proof (cases preserve)
    case True
    then show ?thesis
      using add_all_preserving_ok [OF assms, of pending "([], failed0)" w] False
      by (simp add: add_pending_def)
  next
    case no: False
    obtain r w1 where "call_add_playlist_items yt playlist_id (map p_video_id pending) False w = (Inr r, w1)"
      using call_add_ok [OF assms] by blast
    then show ?thesis using False no by (simp add: add_pending_def)
  qed
qed

lemma migrate_songs_run:
  assumes "import_error e = None" and "strip (auth_file_var e) \<noteq> []"
    and "file_exists e (strip (auth_file_var e))" and "init_error e = None"
    and "safe_str (dict_get payload ''playlistId'') = playlist_id" and "playlist_id \<noteq> []"
    and "dict_get payload ''songs'' = JList songs" and "songs \<noteq> []"
    and "debug_enabled = (is_truthy (dict_get payload ''debug'')
           \<or> is_truthy (case debug_var e of None \<Rightarrow> JNull | Some v \<Rightarrow> JStr v))"
    and "resolve_all yt debug_enabled (enumerate 0 songs) empty_batch w = (b, w1)"
    and "add_pending yt playlist_id (is_truthy (dict_get payload ''preservePosition''))
           (pending_migrations b) (failed b) w1 = ((migrated, failed'), w2)"
  shows "migrate_songs e yt payload w =
     (Inr ([(''ok'', JBool True), (''playlistId'', JStr playlist_id),
            (''migrated'', JList (map pending_json migrated)),
            (''failed'', JList (map JDict failed'))]
           @ (if debug_enabled then
                [(''debug'', JDict [(''enabled'', JBool True),
                                    (''searches'', JList (map JDict (debug_searches b)))])]
              else [])), w2)"
  unfolding migrate_songs_def assms(1) option.case Let_def if_not_P [OF assms(2)]
    assms(5) if_not_P [OF assms(6)] assms(7) json.case if_not_P [OF assms(8)] assms(4)
    assms(9) [symmetric] assms(10) prod.case assms(11)
  using assms(3) by simp

lemma response_fields:
  "dict_get ([(''ok'', JBool True), (''playlistId'', JStr playlist_id),
              (''migrated'', m), (''failed'', f)] @ rest) ''ok'' = JBool True"
  "dict_get ([(''ok'', JBool True), (''playlistId'', JStr playlist_id),
              (''migrated'', m), (''failed'', f)] @ rest) ''migrated'' = m"
  "dict_get ([(''ok'', JBool True), (''playlistId'', JStr playlist_id),
              (''migrated'', m), (''failed'', f)] @ rest) ''failed'' = f"
  by (simp_all add: dict_get_def)

text \<open>
  Claim C10. When the batch runs (the client is set up, the playlist is named and the
  list of songs is not empty), every song of the input has exactly one outcome: the
  migrated and the failed lists together have as many entries as the input has songs, and
  their keys are the keys of the input songs, each as often as in the input; the same
  holds for the pending and the failed lists after the first loop. This is so in the
  append-only and in the position-preserving mode. When the bulk append raises, the
  migrated list is empty and every song is in the failed list. When every append
  succeeds, the migrated songs are all the resolved songs and the failed list is the one
  of the first loop, whatever the reads and the reorder calls of the best-effort
  repositioning do, also when they raise.
\<close>

theorem C10_one_outcome_per_song:
  assumes "import_error e = None" and "strip (auth_file_var e) \<noteq> []"
    and "file_exists e (strip (auth_file_var e))" and "init_error e = None"
    and "safe_str (dict_get payload ''playlistId'') = playlist_id" and "playlist_id \<noteq> []"
    and "dict_get payload ''songs'' = JList songs" and "songs \<noteq> []"
    and "debug_enabled = (is_truthy (dict_get payload ''debug'')
           \<or> is_truthy (case debug_var e of None \<Rightarrow> JNull | Some v \<Rightarrow> JStr v))"
    and "resolve_all yt debug_enabled (enumerate 0 songs) empty_batch w = (b, w1)"
  shows "\<exists>resp w' migrated failed'.
           migrate_songs e yt payload w = (Inr resp, w')
         \<and> dict_get resp ''ok'' = JBool True
         \<and> dict_get resp ''migrated'' = JList (map pending_json migrated)
         \<and> dict_get resp ''failed'' = JList (map JDict failed')
         \<and> length migrated + length failed' = length songs
         \<and> outcome_keys (migrated, failed') = mset (input_keys songs)
         \<and> outcome_keys (pending_migrations b, failed b) = mset (input_keys songs)
         \<and> (\<not> is_truthy (dict_get payload ''preservePosition'')
              \<and> (\<forall>ids s. \<exists>exc s'. add_playlist_items yt playlist_id ids False s = (Inl exc, s'))
            \<longrightarrow> migrated = [] \<and> length failed' = length songs)
         \<and> ((\<forall>ids s. \<exists>r s'. add_playlist_items yt playlist_id ids False s = (Inr r, s'))
            \<longrightarrow> migrated = pending_migrations b \<and> failed' = failed b)"
proof -
  let ?preserve = "is_truthy (dict_get payload ''preservePosition'')"
  obtain migrated failed' w2 where
    ap: "add_pending yt playlist_id ?preserve (pending_migrations b) (failed b) w1 =
           ((migrated, failed'), w2)"
    by (metis prod.exhaust)
  note run = migrate_songs_run [OF assms ap]
  have p1: "outcome_keys (pending_migrations b, failed b) = mset (input_keys songs)"
    and l1: "length (pending_migrations b) + length (failed b) = length songs"
    using resolve_all_keys [OF assms(10)]
    by (simp_all add: outcome_keys_def empty_batch_def input_keys_def)
  have p2: "outcome_keys (migrated, failed') = mset (input_keys songs)"
    and l2: "length migrated + length failed' = length songs"
    using add_pending_keys [OF ap] p1 l1 by simp_all
  have bulk: "\<not> ?preserve
       \<and> (\<forall>ids s. \<exists>exc s'. add_playlist_items yt playlist_id ids False s = (Inl exc, s'))
      \<longrightarrow> migrated = [] \<and> length failed' = length songs"
  proof
    assume a: "\<not> ?preserve
       \<and> (\<forall>ids s. \<exists>exc s'. add_playlist_items yt playlist_id ids False s = (Inl exc, s'))"
    then have "add_pending yt playlist_id False (pending_migrations b) (failed b) w1 =
           ((migrated, failed'), w2)" using ap by simp
    from add_pending_bulk_fails [OF _ this] a l1
    show "migrated = [] \<and> length failed' = length songs" by simp
  qed
  have ok: "(\<forall>ids s. \<exists>r s'. add_playlist_items yt playlist_id ids False s = (Inr r, s'))
      \<longrightarrow> migrated = pending_migrations b \<and> failed' = failed b"
  proof
    assume "\<forall>ids s. \<exists>r s'. add_playlist_items yt playlist_id ids False s = (Inr r, s')"
    from add_pending_ok [OF this, of ?preserve "pending_migrations b" "failed b" w1]
    show "migrated = pending_migrations b \<and> failed' = failed b" using ap by auto
  qed
  show ?thesis
  proof (intro exI conjI)
    show "migrate_songs e yt payload w =
      (Inr ([(''ok'', JBool True), (''playlistId'', JStr playlist_id),
             (''migrated'', JList (map pending_json migrated)),
             (''failed'', JList (map JDict failed'))]
            @ (if debug_enabled then
                 [(''debug'', JDict [(''enabled'', JBool True),
                                     (''searches'', JList (map JDict (debug_searches b)))])]
               else [])), w2)"
      by (rule run)
    show "dict_get ([(''ok'', JBool True), (''playlistId'', JStr playlist_id),
             (''migrated'', JList (map pending_json migrated)),
             (''failed'', JList (map JDict failed'))]
            @ (if debug_enabled then
                 [(''debug'', JDict [(''enabled'', JBool True),
                                     (''searches'', JList (map JDict (debug_searches b)))])]
               else [])) ''ok'' = JBool True"
      by (rule response_fields)
    show "dict_get ([(''ok'', JBool True), (''playlistId'', JStr playlist_id),
             (''migrated'', JList (map pending_json migrated)),
             (''failed'', JList (map JDict failed'))]
            @ (if debug_enabled then
                 [(''debug'', JDict [(''enabled'', JBool True),
                                     (''searches'', JList (map JDict (debug_searches b)))])]
               else [])) ''migrated'' = JList (map pending_json migrated)"
      by (rule response_fields)
    show "dict_get ([(''ok'', JBool True), (''playlistId'', JStr playlist_id),
             (''migrated'', JList (map pending_json migrated)),
             (''failed'', JList (map JDict failed'))]
            @ (if debug_enabled then
                 [(''debug'', JDict [(''enabled'', JBool True),
                                     (''searches'', JList (map JDict (debug_searches b)))])]
               else [])) ''failed'' = JList (map JDict failed')"
      by (rule response_fields)
    show "length migrated + length failed' = length songs" by (rule l2)
    show "outcome_keys (migrated, failed') = mset (input_keys songs)" by (rule p2)
    show "outcome_keys (pending_migrations b, failed b) = mset (input_keys songs)" by (rule p1)
    show "\<not> ?preserve
       \<and> (\<forall>ids s. \<exists>exc s'. add_playlist_items yt playlist_id ids False s = (Inl exc, s'))
      \<longrightarrow> migrated = [] \<and> length failed' = length songs" by (rule bulk)
    show "(\<forall>ids s. \<exists>r s'. add_playlist_items yt playlist_id ids False s = (Inr r, s'))
      \<longrightarrow> migrated = pending_migrations b \<and> failed' = failed b" by (rule ok)
  qed
qed


text \<open>
  A batch in the position-preserving mode against a client whose reads and reorder calls
  raise: the read before the append and the first read of the repositioning both raise,
  the resolved song is in the migrated list and nowhere else, and the two other songs
  are in the failed list.
\<close>

lemma preserving_resolved:
  "resolve_all raising_reads False
     (enumerate 0 [JDict (song_queen @ [(''expectedIndex'', JInt 0)]), JDict song_untitled, JNull])
     empty_batch ((), []) =
   (preserving_batch, ((), [Search ''Queen Bohemian Rhapsody'' ''songs'' 20]))"
  by code_simp

lemma preserving_example:
  "migrate_songs env_ok raising_reads preserving_payload ((), []) =
     (Inr [(''ok'', JBool True), (''playlistId'', JStr ''PL''),
           (''migrated'', JList [pending_json (queen_pending\<lparr>p_expected_index := Some 0\<rparr>)]),
           (''failed'', JList (map JDict (failed preserving_batch)))],
      ((), [Search ''Queen Bohemian Rhapsody'' ''songs'' 20, GetPlaylist ''PL'' 5000,
            AddPlaylistItems ''PL'' [''abc''] False, GetPlaylist ''PL'' 5000]))"
  by code_simp

theorem C10_one_outcome_witness:
  "\<exists>resp w' migrated failed'.
      migrate_songs env_ok raising_reads preserving_payload ((), []) = (Inr resp, w')
    \<and> dict_get resp ''migrated'' = JList (map pending_json migrated)
    \<and> dict_get resp ''failed'' = JList (map JDict failed')
    \<and> length migrated + length failed' = 3
    \<and> migrated = [queen_pending\<lparr>p_expected_index := Some 0\<rparr>]
    \<and> failed' = failed preserving_batch"
proof -
  let ?songs = "[JDict (song_queen @ [(''expectedIndex'', JInt 0)]), JDict song_untitled, JNull]"
  have h1: "import_error env_ok = None" by (simp add: env_ok_def)
  have h2: "strip (auth_file_var env_ok) \<noteq> []" by code_simp
  have h3: "file_exists env_ok (strip (auth_file_var env_ok))" by (simp add: env_ok_def)
  have h4: "init_error env_ok = None" by (simp add: env_ok_def)
  have h5: "safe_str (dict_get preserving_payload ''playlistId'') = ''PL''" by code_simp
  have h6: "''PL'' \<noteq> []" by simp
  have h7: "dict_get preserving_payload ''songs'' = JList ?songs" by code_simp
  have h8: "?songs \<noteq> []" by simp
  have h9: "False = (is_truthy (dict_get preserving_payload ''debug'')
           \<or> is_truthy (case debug_var env_ok of None \<Rightarrow> JNull | Some v \<Rightarrow> JStr v))"
    by code_simp
  have adds: "\<forall>ids s. \<exists>r s'. add_playlist_items raising_reads ''PL'' ids False s = (Inr r, s')"
    by (simp add: raising_reads_def fixed_answers_def)
  have pm: "pending_migrations preserving_batch = [queen_pending\<lparr>p_expected_index := Some 0\<rparr>]"
    by (simp add: preserving_batch_def)
  from C10_one_outcome_per_song [OF h1 h2 h3 h4 h5 h6 h7 h8 h9 preserving_resolved]
  obtain resp w' migrated failed' where
    r: "migrate_songs env_ok raising_reads preserving_payload ((), []) = (Inr resp, w')"
      "dict_get resp ''migrated'' = JList (map pending_json migrated)"
      "dict_get resp ''failed'' = JList (map JDict failed')"
      "length migrated + length failed' = length ?songs"
      "(\<forall>ids s. \<exists>r s'. add_playlist_items raising_reads ''PL'' ids False s = (Inr r, s'))
         \<longrightarrow> migrated = pending_migrations preserving_batch \<and> failed' = failed preserving_batch"
    by blast
  have "migrated = [queen_pending\<lparr>p_expected_index := Some 0\<rparr>] \<and> failed' = failed preserving_batch"
    using r(5) adds pm by simp
  then show ?thesis using r(1-4) by (intro exI [of _ resp] exI [of _ w'] exI [of _ migrated] exI [of _ failed']) simp
qed




lemma batch_example:
  "migrate_songs env_ok (catalogue (JList [JDict cand_b, JDict cand_a]) (snapshot_of rows4))
     (batch_payload [JDict song_queen, JDict song_untitled]) ((), []) =
     (Inr [(''ok'', JBool True), (''playlistId'', JStr ''PL''),
           (''migrated'', JList [pending_json queen_pending]),
           (''failed'', JList [JDict (failed_entry ''song-1'' [] ''Queen'' []
                                        ''Song title is required.'')])],
      ((), [Search ''Queen Bohemian Rhapsody'' ''songs'' 20,
            AddPlaylistItems ''PL'' [''abc''] False]))"
  by code_simp



end
